theory Spec2Isabelle
  imports
    Complex_Main
    "HOL-Library.Multiset"
    "HOL-Library.Sublist"
    "HOL-Library.Char_ord"
    "HOL-Library.List_Lexorder"
begin

section \<open>Data model (src/types.ts)\<close>

text \<open>
  \<^verbatim>\<open>PrimitiveItemSchema\<close>: an object of four strings and the enum
  \<^verbatim>\<open>source: z.enum(["global", "local"])\<close>.
\<close>

datatype source = Global | Local

record PrimitiveItem =
  type :: string
  name :: string
  description :: string
  path :: string
  source :: source

fun source_str :: "source \<Rightarrow> string" where
  "source_str Global = ''global''"
| "source_str Local = ''local''"

text \<open>
  A JavaScript number that passes \<^verbatim>\<open>z.number()\<close> is finite and not NaN; such a
  number is a rational, and the sign of the difference of two of them, which is all
  the comparators below look at, is the sign of the exact difference. Timestamps are
  therefore modelled as \<^typ>\<open>real\<close>.

  \<^verbatim>\<open>RecentCacheSchema\<close>: \<^verbatim>\<open>{ recent: z.record(z.string(), z.number()) }\<close>. A
  JavaScript object keeps its string keys in insertion order, and \<^verbatim>\<open>updateCache\<close>
  sorts \<^verbatim>\<open>Object.entries\<close> with a stable sort, so the order is part of the model: the
  object is the list of its entries, with pairwise different keys.
\<close>

type_synonym entries = "(string \<times> real) list"

record RecentCache =
  recent :: entries

section \<open>JavaScript built-ins used by src/cache.ts\<close>

text \<open>
  \<^verbatim>\<open>Array.prototype.sort(cmp)\<close> is a stable sort: with a consistent comparator the
  result is the one permutation that is ordered by \<^verbatim>\<open>cmp\<close> and keeps elements that
  compare equal in their input order. Insertion from the right end computes it: an
  element goes in front of the first element it does not compare greater than.
\<close>

fun insert_by :: "('a \<Rightarrow> 'a \<Rightarrow> real) \<Rightarrow> 'a \<Rightarrow> 'a list \<Rightarrow> 'a list" where
  "insert_by cmp x [] = [x]"
| "insert_by cmp x (y # ys) =
     (if cmp x y \<le> 0 then x # y # ys else y # insert_by cmp x ys)"

definition array_sort :: "('a \<Rightarrow> 'a \<Rightarrow> real) \<Rightarrow> 'a list \<Rightarrow> 'a list" where
  "array_sort cmp xs = foldr (insert_by cmp) xs []"

text \<open>\<^verbatim>\<open>obj[k] = v\<close>: an existing key keeps its place, a new key goes to the end.\<close>

fun obj_set :: "string \<Rightarrow> real \<Rightarrow> entries \<Rightarrow> entries" where
  "obj_set k v [] = [(k, v)]"
| "obj_set k v (e # es) = (if fst e = k then (k, v) # es else e # obj_set k v es)"

text \<open>\<^verbatim>\<open>obj[k]\<close>: the value, or \<^verbatim>\<open>undefined\<close> (here \<^term>\<open>None\<close>).\<close>

definition obj_get :: "entries \<Rightarrow> string \<Rightarrow> real option" where
  "obj_get es k = map_of es k"

text \<open>\<^verbatim>\<open>x || 0\<close> on a number or \<^verbatim>\<open>undefined\<close>: every falsy value gives 0.\<close>

fun or_zero :: "real option \<Rightarrow> real" where
  "or_zero None = 0"
| "or_zero (Some v) = (if v = 0 then 0 else v)"

section \<open>The recency cache (src/cache.ts)\<close>

definition MAX_RECENT :: nat where
  "MAX_RECENT = 10"

definition cacheKey :: "PrimitiveItem \<Rightarrow> string" where
  "cacheKey item = type item @ '':'' @ source_str (source item) @ '':'' @ name item"

text \<open>
  The body of \<^verbatim>\<open>updateCache\<close> between \<^verbatim>\<open>loadCache()\<close> and \<^verbatim>\<open>saveCache(cache)\<close>.
  \<^verbatim>\<open>now\<close> is the value of \<^verbatim>\<open>Date.now()\<close>. First the loop over the items:
\<close>

definition mark_items :: "real \<Rightarrow> PrimitiveItem list \<Rightarrow> RecentCache \<Rightarrow> RecentCache" where
  "mark_items now items cache =
     foldl (\<lambda>c item. c\<lparr>recent := obj_set (cacheKey item) now (recent c)\<rparr>) cache items"

text \<open>
  then the pruning. \<^verbatim>\<open>Object.fromEntries\<close> of entries with different keys has those
  entries. (A key that is written like an array index, which no \<^verbatim>\<open>cacheKey\<close> is but a
  hand-edited file may hold, is moved to the front of the new object; the entries are
  the same.)
\<close>

definition prune :: "RecentCache \<Rightarrow> RecentCache" where
  "prune cache =
     (let entries = recent cache in
      if length entries > MAX_RECENT
      then cache\<lparr>recent := take MAX_RECENT (array_sort (\<lambda>a b. snd b - snd a) entries)\<rparr>
      else cache)"

definition updateCache_mem :: "real \<Rightarrow> PrimitiveItem list \<Rightarrow> RecentCache \<Rightarrow> RecentCache" where
  "updateCache_mem now items cache = prune (mark_items now items cache)"

text \<open>
  \<^verbatim>\<open>sortByRecent\<close>. \<^verbatim>\<open>String.prototype.localeCompare\<close> depends on the host's
  collation and is a parameter, \<open>lc\<close>; it returns a negative number, zero or a
  positive number.
\<close>

definition recent_cmp ::
  "(string \<Rightarrow> string \<Rightarrow> real) \<Rightarrow> RecentCache \<Rightarrow> PrimitiveItem \<Rightarrow> PrimitiveItem \<Rightarrow> real" where
  "recent_cmp lc cache a b =
     (let aTime = or_zero (obj_get (recent cache) (cacheKey a));
          bTime = or_zero (obj_get (recent cache) (cacheKey b))
      in if aTime \<noteq> bTime then bTime - aTime else lc (name a) (name b))"

definition sortByRecent ::
  "(string \<Rightarrow> string \<Rightarrow> real) \<Rightarrow> PrimitiveItem list \<Rightarrow> RecentCache \<Rightarrow> PrimitiveItem list" where
  "sortByRecent lc items cache = array_sort (recent_cmp lc cache) items"

text \<open>
  The same function on a store of arrays, to see what it does to its argument:
  \<^verbatim>\<open>[...items]\<close> allocates a new array with the elements of \<^verbatim>\<open>items\<close>, and
  \<^verbatim>\<open>.sort\<close> sorts that new array in place and returns it.
\<close>

record 'a store =
  cells :: "nat \<Rightarrow> 'a list option"
  next_ref :: nat

definition spread :: "nat \<Rightarrow> 'a store \<Rightarrow> (nat \<times> 'a store) option" where
  "spread r s =
     (case cells s r of
        None \<Rightarrow> None
      | Some xs \<Rightarrow> Some (next_ref s, s\<lparr>cells := (cells s)(next_ref s \<mapsto> xs), next_ref := Suc (next_ref s)\<rparr>))"

definition sort_in_place :: "('a \<Rightarrow> 'a \<Rightarrow> real) \<Rightarrow> nat \<Rightarrow> 'a store \<Rightarrow> (nat \<times> 'a store) option" where
  "sort_in_place cmp r s =
     (case cells s r of
        None \<Rightarrow> None
      | Some xs \<Rightarrow> Some (r, s\<lparr>cells := (cells s)(r \<mapsto> array_sort cmp xs)\<rparr>))"

definition sortByRecent_store ::
  "(string \<Rightarrow> string \<Rightarrow> real) \<Rightarrow> nat \<Rightarrow> RecentCache \<Rightarrow> PrimitiveItem store
     \<Rightarrow> (nat \<times> PrimitiveItem store) option" where
  "sortByRecent_store lc items cache s =
     (case spread items s of
        None \<Rightarrow> None
      | Some (copy, s1) \<Rightarrow> sort_in_place (recent_cmp lc cache) copy s1)"

text \<open>
  A consistent \<^verbatim>\<open>localeCompare\<close>: any two strings are comparable, and the order is
  transitive.
\<close>

definition consistent :: "('a \<Rightarrow> 'a \<Rightarrow> real) \<Rightarrow> bool" where
  "consistent cmp \<longleftrightarrow>
     (\<forall>a b. cmp a b \<le> 0 \<or> cmp b a \<le> 0) \<and>
     (\<forall>a b c. cmp a b \<le> 0 \<and> cmp b c \<le> 0 \<longrightarrow> cmp a c \<le> 0)"

text \<open>A comparison by code units, one instance of \<open>lc\<close>.\<close>

definition codeunit_compare :: "string \<Rightarrow> string \<Rightarrow> real" where
  "codeunit_compare a b = (if a < b then - 1 else if a = b then 0 else 1)"

text \<open>The order the result of \<^verbatim>\<open>sortByRecent\<close> is in.\<close>

definition cached_time :: "RecentCache \<Rightarrow> PrimitiveItem \<Rightarrow> real" where
  "cached_time cache a = (case obj_get (recent cache) (cacheKey a) of None \<Rightarrow> 0 | Some t \<Rightarrow> t)"

definition recent_before ::
  "(string \<Rightarrow> string \<Rightarrow> real) \<Rightarrow> RecentCache \<Rightarrow> PrimitiveItem \<Rightarrow> PrimitiveItem \<Rightarrow> bool" where
  "recent_before lc cache a b \<longleftrightarrow>
     cached_time cache a > cached_time cache b \<or>
     (cached_time cache a = cached_time cache b \<and> lc (name a) (name b) \<le> 0)"

section \<open>Values parsed from files\<close>

text \<open>
  What \<^verbatim>\<open>JSON.parse\<close> and the YAML parser of gray-matter return. A number is finite
  (\<open>JNum\<close>) or one of NaN and the infinities (\<open>JNonFinite\<close>, which \<^verbatim>\<open>1e999\<close> parses
  to). An object is the list of its properties, with pairwise different keys.
\<close>

datatype json =
    JNull
  | JBool bool
  | JNum real
  | JNonFinite
  | JStr string
  | JArr "json list"
  | JObj "(string \<times> json) list"

text \<open>The exceptions: of \<^verbatim>\<open>node:fs\<close>, \<^verbatim>\<open>JSON.parse\<close>, gray-matter and zod's \<^verbatim>\<open>parse\<close>.\<close>

datatype error = FsError | SyntaxError | YAMLError | ZodError

text \<open>
  \<^verbatim>\<open>RecentCacheSchema.safeParse\<close>, with \<^term>\<open>None\<close> for \<^verbatim>\<open>success: false\<close>. The
  value must be an object with a property \<^verbatim>\<open>recent\<close> that is an object all of whose
  values are finite numbers; other properties of the outer object are dropped.
  \<^verbatim>\<open>z.record\<close> passes over a key \<^verbatim>\<open>__proto__\<close>.
\<close>

fun record_of_number :: "(string \<times> json) list \<Rightarrow> entries option" where
  "record_of_number [] = Some []"
| "record_of_number ((k, v) # ps) =
     (case v of
        JNum n \<Rightarrow>
          (case record_of_number ps of
             None \<Rightarrow> None
           | Some es \<Rightarrow> Some (if k = ''__proto__'' then es else (k, n) # es))
      | _ \<Rightarrow> (if k = ''__proto__'' then record_of_number ps else None))"

fun RecentCacheSchema_safeParse :: "json \<Rightarrow> RecentCache option" where
  "RecentCacheSchema_safeParse (JObj ps) =
     (case map_of ps ''recent'' of
        Some (JObj rs) \<Rightarrow>
          (case record_of_number rs of
             None \<Rightarrow> None
           | Some es \<Rightarrow> Some \<lparr>recent = es\<rparr>)
      | _ \<Rightarrow> None)"
| "RecentCacheSchema_safeParse _ = None"

section \<open>The cache file (src/cache.ts)\<close>

text \<open>
  The state of \<^verbatim>\<open>CACHE_FILE\<close>: not there, there but \<^verbatim>\<open>readFileSync\<close> raises (no
  permission, a directory), or a file with a text. The world also says whether
  \<^verbatim>\<open>mkdirSync\<close>, \<^verbatim>\<open>writeFileSync\<close> and \<^verbatim>\<open>unlinkSync\<close> on the cache path succeed.
  A function of \<^verbatim>\<open>cache.ts\<close> returns \<open>Inl\<close> when an exception leaves it.
\<close>

datatype file_state = Missing | Unreadable | File string

record world =
  cache_file :: file_state
  mkdir_ok :: bool
  write_ok :: bool
  unlink_ok :: bool

definition existsSync_cache :: "world \<Rightarrow> bool" where
  "existsSync_cache w \<longleftrightarrow> cache_file w \<noteq> Missing"

definition readFileSync_cache :: "world \<Rightarrow> error + string" where
  "readFileSync_cache w =
     (case cache_file w of File data \<Rightarrow> Inr data | _ \<Rightarrow> Inl FsError)"

definition empty_cache :: RecentCache where
  "empty_cache = \<lparr>recent = []\<rparr>"

text \<open>
  \<^verbatim>\<open>loadCache\<close>: first the \<^verbatim>\<open>try\<close> block, whose value is the exception raised in
  it, the parsed cache returned from it, or \<^term>\<open>None\<close> when control falls out of it;
  then the \<^verbatim>\<open>catch\<close> and the final \<^verbatim>\<open>return { recent: {} }\<close>. \<^verbatim>\<open>JSON.parse\<close> is a
  parameter, with \<^term>\<open>None\<close> for a \<^verbatim>\<open>SyntaxError\<close>.
\<close>

definition loadCache_try :: "(string \<Rightarrow> json option) \<Rightarrow> world \<Rightarrow> error + RecentCache option" where
  "loadCache_try JSON_parse w =
     (if existsSync_cache w then
        (case readFileSync_cache w of
           Inl e \<Rightarrow> Inl e
         | Inr data \<Rightarrow>
             (case JSON_parse data of
                None \<Rightarrow> Inl SyntaxError
              | Some v \<Rightarrow> Inr (RecentCacheSchema_safeParse v)))
      else Inr None)"

definition loadCache :: "(string \<Rightarrow> json option) \<Rightarrow> world \<Rightarrow> error + RecentCache" where
  "loadCache JSON_parse w =
     (case loadCache_try JSON_parse w of
        Inr (Some parsed) \<Rightarrow> Inr parsed
      | Inr None \<Rightarrow> Inr empty_cache
      | Inl e \<Rightarrow> Inr empty_cache)"

text \<open>
  \<^verbatim>\<open>saveCache\<close>, with \<^verbatim>\<open>JSON.stringify(cache, null, 2)\<close> as a parameter applied to the
  cache as a JSON value. A failed write is taken to leave the file as it was.
\<close>

definition cache_json :: "RecentCache \<Rightarrow> json" where
  "cache_json cache = JObj [(''recent'', JObj (map (\<lambda>(k, t). (k, JNum t)) (recent cache)))]"

definition saveCache_try :: "(json \<Rightarrow> string) \<Rightarrow> RecentCache \<Rightarrow> world \<Rightarrow> error + world" where
  "saveCache_try JSON_stringify cache w =
     (if \<not> mkdir_ok w then Inl FsError
      else if \<not> write_ok w then Inl FsError
      else Inr (w\<lparr>cache_file := File (JSON_stringify (cache_json cache))\<rparr>))"

definition saveCache :: "(json \<Rightarrow> string) \<Rightarrow> RecentCache \<Rightarrow> world \<Rightarrow> error + world" where
  "saveCache JSON_stringify cache w =
     (case saveCache_try JSON_stringify cache w of
        Inr w' \<Rightarrow> Inr w'
      | Inl e \<Rightarrow> Inr w)"

text \<open>\<^verbatim>\<open>clearCache\<close> has no \<^verbatim>\<open>try\<close>: what \<^verbatim>\<open>unlinkSync\<close> raises leaves it.\<close>

definition unlinkSync_cache :: "world \<Rightarrow> error + world" where
  "unlinkSync_cache w = (if unlink_ok w then Inr (w\<lparr>cache_file := Missing\<rparr>) else Inl FsError)"

definition clearCache :: "world \<Rightarrow> error + (bool \<times> world)" where
  "clearCache w =
     (if existsSync_cache w then
        (case unlinkSync_cache w of
           Inl e \<Rightarrow> Inl e
         | Inr w' \<Rightarrow> Inr (True, w'))
      else Inr (False, w))"

text \<open>\<^verbatim>\<open>updateCache\<close> on the world: load, mark and prune, save.\<close>

definition updateCache ::
  "(string \<Rightarrow> json option) \<Rightarrow> (json \<Rightarrow> string) \<Rightarrow> real \<Rightarrow> PrimitiveItem list \<Rightarrow> world \<Rightarrow> error + world" where
  "updateCache JSON_parse JSON_stringify now items w =
     (case loadCache JSON_parse w of
        Inl e \<Rightarrow> Inl e
      | Inr cache \<Rightarrow> saveCache JSON_stringify (updateCache_mem now items cache) w)"

section \<open>node:path (POSIX)\<close>

text \<open>
  \<^verbatim>\<open>join\<close>, \<^verbatim>\<open>resolve\<close>, \<^verbatim>\<open>dirname\<close> and \<^verbatim>\<open>basename\<close> of Node's \<^verbatim>\<open>path.posix\<close>.
  \<^verbatim>\<open>normalizeString\<close> drops empty and \<^verbatim>\<open>.\<close> segments and lets \<^verbatim>\<open>..\<close> remove the
  segment before it; none of the four looks at the disk, so none follows a symbolic
  link. \<^verbatim>\<open>resolve\<close> takes the working directory as its first argument here.
\<close>

fun split_on :: "char \<Rightarrow> string \<Rightarrow> string list" where
  "split_on c [] = [[]]"
| "split_on c (x # xs) =
     (if x = c then [] # split_on c xs
      else (case split_on c xs of
              [] \<Rightarrow> [[x]]
            | s # ss \<Rightarrow> (x # s) # ss))"

fun join_with :: "string \<Rightarrow> string list \<Rightarrow> string" where
  "join_with sep [] = []"
| "join_with sep [s] = s"
| "join_with sep (s # t # ss) = s @ sep @ join_with sep (t # ss)"

definition norm_step :: "bool \<Rightarrow> string list \<Rightarrow> string \<Rightarrow> string list" where
  "norm_step allowAboveRoot res seg =
     (if seg = [] \<or> seg = ''.'' then res
      else if seg = ''..'' then
        (if res \<noteq> [] \<and> last res \<noteq> ''..'' then butlast res
         else if allowAboveRoot then res @ [''..'']
         else res)
      else res @ [seg])"

definition normalizeString :: "string \<Rightarrow> bool \<Rightarrow> string" where
  "normalizeString p allowAboveRoot =
     join_with ''/'' (foldl (norm_step allowAboveRoot) [] (split_on CHR ''/'' p))"

definition normalize :: "string \<Rightarrow> string" where
  "normalize p =
     (if p = [] then ''.''
      else
        (let isAbsolute = (hd p = CHR ''/'');
             trailingSeparator = (last p = CHR ''/'');
             q = normalizeString p (\<not> isAbsolute)
         in if q = [] then (if isAbsolute then ''/'' else if trailingSeparator then ''./'' else ''.'')
            else (let q' = (if trailingSeparator then q @ ''/'' else q)
                  in if isAbsolute then CHR ''/'' # q' else q')))"

definition path_join :: "string list \<Rightarrow> string" where
  "path_join args =
     (let parts = filter (\<lambda>a. a \<noteq> []) args
      in if parts = [] then ''.'' else normalize (join_with ''/'' parts))"

definition path_resolve :: "string \<Rightarrow> string \<Rightarrow> string" where
  "path_resolve cwd p =
     (let abs1 = (p \<noteq> [] \<and> hd p = CHR ''/'');
          r1 = (if p = [] then [] else p @ ''/'');
          r2 = (if abs1 \<or> cwd = [] then r1 else cwd @ ''/'' @ r1);
          resolvedAbsolute = (abs1 \<or> (cwd \<noteq> [] \<and> hd cwd = CHR ''/''));
          n = normalizeString r2 (\<not> resolvedAbsolute)
      in if resolvedAbsolute then CHR ''/'' # n
         else if n \<noteq> [] then n else ''.'')"

text \<open>
  \<^verbatim>\<open>basename\<close> is what lies between the last slash and the end, trailing slashes
  aside; \<^verbatim>\<open>dirname\<close> is what lies before that slash, index 0 aside.
\<close>

definition basename :: "string \<Rightarrow> string" where
  "basename p =
     rev (takeWhile (\<lambda>c. c \<noteq> CHR ''/'') (dropWhile (\<lambda>c. c = CHR ''/'') (rev p)))"

definition dirname :: "string \<Rightarrow> string" where
  "dirname p =
     (if p = [] then ''.''
      else
        (let hasRoot = (hd p = CHR ''/'');
             r = dropWhile (\<lambda>c. c \<noteq> CHR ''/'') (dropWhile (\<lambda>c. c = CHR ''/'') (rev (tl p)));
             e = length r
         in if e = 0 then (if hasRoot then ''/'' else ''.'')
            else if hasRoot \<and> e = 1 then ''//''
            else take e p))"

section \<open>Discovery (src/primitives/skill.ts, domain.ts)\<close>

text \<open>
  The disk as the functions of \<^verbatim>\<open>node:fs\<close> show it, each a function of the path;
  \<open>Inl\<close> is an exception. \<^verbatim>\<open>readdirSync\<close> with \<^verbatim>\<open>withFileTypes\<close> gives entries
  with a name and \<^verbatim>\<open>isSymbolicLink()\<close>; \<^verbatim>\<open>statSync\<close> with \<^verbatim>\<open>throwIfNoEntry: false\<close>
  gives \<^verbatim>\<open>undefined\<close> (\<^term>\<open>None\<close>) for a missing path and otherwise a value of which
  only \<^verbatim>\<open>isDirectory()\<close> is used. The environment gives \<^verbatim>\<open>homedir()\<close> and
  \<^verbatim>\<open>process.cwd()\<close>.
\<close>

record dirent =
  d_name :: string
  isSymbolicLink :: bool

datatype stats = Directory | NotDirectory

record fs =
  existsSync :: "string \<Rightarrow> bool"
  readdirSync :: "string \<Rightarrow> error + dirent list"
  realpathSync :: "string \<Rightarrow> error + string"
  statSync :: "string \<Rightarrow> error + stats option"
  readFileSync :: "string \<Rightarrow> error + string"

record env =
  homedir :: string
  cwd :: string

text \<open>
  \<^verbatim>\<open>discoverSkillPaths\<close> and \<^verbatim>\<open>discoverDomainPaths\<close> are the same text but for the file
  name, \<^verbatim>\<open>SKILL.md\<close> or \<^verbatim>\<open>DOMAIN.md\<close>, which is the parameter \<open>required\<close> of the
  loop over the entries. A link that does not resolve is skipped (\<^verbatim>\<open>continue\<close>); an
  exception of \<^verbatim>\<open>statSync\<close> or \<^verbatim>\<open>readdirSync\<close> leaves the function.
\<close>

fun scan_entries ::
  "string \<Rightarrow> fs \<Rightarrow> string \<Rightarrow> dirent list \<Rightarrow> string list \<Rightarrow> error + string list" where
  "scan_entries required f dir [] paths = Inr paths"
| "scan_entries required f dir (entry # entries) paths =
     (let fullPath = path_join [dir, d_name entry] in
      case (if isSymbolicLink entry then realpathSync f fullPath else Inr fullPath) of
        Inl e \<Rightarrow> scan_entries required f dir entries paths
      | Inr realPath \<Rightarrow>
          (case statSync f realPath of
             Inl e \<Rightarrow> Inl e
           | Inr stat \<Rightarrow>
               if stat = Some Directory then
                 (let skillFile = path_join [realPath, required] in
                  if existsSync f skillFile
                  then scan_entries required f dir entries (paths @ [skillFile])
                  else scan_entries required f dir entries paths)
               else if d_name entry = required
               then scan_entries required f dir entries (paths @ [fullPath])
               else scan_entries required f dir entries paths))"

definition discoverPaths :: "string \<Rightarrow> fs \<Rightarrow> string \<Rightarrow> error + string list" where
  "discoverPaths required f dir =
     (if \<not> existsSync f dir then Inr []
      else (case readdirSync f dir of
              Inl e \<Rightarrow> Inl e
            | Inr entries \<Rightarrow> scan_entries required f dir entries []))"

definition discoverSkillPaths :: "fs \<Rightarrow> string \<Rightarrow> error + string list" where
  "discoverSkillPaths = discoverPaths ''SKILL.md''"

definition discoverDomainPaths :: "fs \<Rightarrow> string \<Rightarrow> error + string list" where
  "discoverDomainPaths = discoverPaths ''DOMAIN.md''"

text \<open>
  \<^verbatim>\<open>SkillFrontmatterSchema\<close> and \<^verbatim>\<open>DomainFrontmatterSchema\<close>, both an object with
  optional strings \<^verbatim>\<open>name\<close> and \<^verbatim>\<open>description\<close>: a property that is there must be a
  string.
\<close>

record frontmatter =
  fm_name :: "string option"
  fm_description :: "string option"

fun optional_string :: "json option \<Rightarrow> string option option" where
  "optional_string None = Some None"
| "optional_string (Some (JStr s)) = Some (Some s)"
| "optional_string (Some _) = None"

fun FrontmatterSchema_safeParse :: "json \<Rightarrow> frontmatter option" where
  "FrontmatterSchema_safeParse (JObj ps) =
     (case optional_string (map_of ps ''name'') of
        None \<Rightarrow> None
      | Some n \<Rightarrow>
          (case optional_string (map_of ps ''description'') of
             None \<Rightarrow> None
           | Some d \<Rightarrow> Some \<lparr>fm_name = n, fm_description = d\<rparr>))"
| "FrontmatterSchema_safeParse _ = None"

text \<open>\<^verbatim>\<open>s || d\<close> for a string or \<^verbatim>\<open>undefined\<close>: the empty string is falsy too.\<close>

fun or_else :: "string option \<Rightarrow> string \<Rightarrow> string" where
  "or_else None d = d"
| "or_else (Some s) d = (if s = [] then d else s)"

text \<open>
  \<^verbatim>\<open>parseSkill\<close> and \<^verbatim>\<open>parseDomain\<close> are the same text but for the \<^verbatim>\<open>type\<close> they
  write. First the \<^verbatim>\<open>try\<close> block, with gray-matter's \<^verbatim>\<open>matter\<close> as a parameter that
  returns the parsed front matter and the body or raises; then, in each of the two
  functions, the \<^verbatim>\<open>catch\<close> that returns \<^verbatim>\<open>null\<close>.
\<close>

definition parsePrimitive ::
  "string \<Rightarrow> (string \<Rightarrow> error + json \<times> string) \<Rightarrow> fs \<Rightarrow> string \<Rightarrow> source \<Rightarrow> error + PrimitiveItem" where
  "parsePrimitive ty matter f skillPath src =
     (case readFileSync f skillPath of
        Inl e \<Rightarrow> Inl e
      | Inr content \<Rightarrow>
          (case matter content of
             Inl e \<Rightarrow> Inl e
           | Inr (data, body) \<Rightarrow>
               (let parsed = FrontmatterSchema_safeParse data;
                    frontmatter = (case parsed of
                                     Some fm \<Rightarrow> fm
                                   | None \<Rightarrow> \<lparr>fm_name = None, fm_description = None\<rparr>);
                    skillDir = dirname skillPath;
                    name = or_else (fm_name frontmatter) (basename skillDir);
                    description = or_else (fm_description frontmatter) ''No description provided''
                in Inr \<lparr>type = ty, name = name, description = description,
                         path = skillPath, source = src\<rparr>)))"

definition parseSkill ::
  "(string \<Rightarrow> error + json \<times> string) \<Rightarrow> fs \<Rightarrow> string \<Rightarrow> source \<Rightarrow> PrimitiveItem option" where
  "parseSkill matter f skillPath src =
     (case parsePrimitive ''skill'' matter f skillPath src of
        Inr item \<Rightarrow> Some item
      | Inl e \<Rightarrow> None)"

definition parseDomain ::
  "(string \<Rightarrow> error + json \<times> string) \<Rightarrow> fs \<Rightarrow> string \<Rightarrow> source \<Rightarrow> PrimitiveItem option" where
  "parseDomain matter f domainPath src =
     (case parsePrimitive ''domain'' matter f domainPath src of
        Inr item \<Rightarrow> Some item
      | Inl e \<Rightarrow> None)"

definition GLOBAL_SKILLS_DIR :: "env \<Rightarrow> string" where
  "GLOBAL_SKILLS_DIR e = path_join [homedir e, ''.claude'', ''skills'']"

definition LOCAL_SKILLS_DIR :: "env \<Rightarrow> string" where
  "LOCAL_SKILLS_DIR e = path_join [cwd e, ''.claude'', ''skills'']"

definition GLOBAL_DOMAINS_DIR :: "env \<Rightarrow> string" where
  "GLOBAL_DOMAINS_DIR e = path_join [homedir e, ''.claude'', ''domains'']"

definition LOCAL_DOMAINS_DIR :: "env \<Rightarrow> string" where
  "LOCAL_DOMAINS_DIR e = path_join [cwd e, ''.claude'', ''domains'']"

text \<open>The loop \<^verbatim>\<open>for (const path of ...) { const item = parse(path, source); if (item) items.push(item); }\<close>.\<close>

definition push_parsed ::
  "(string \<Rightarrow> source \<Rightarrow> PrimitiveItem option) \<Rightarrow> source \<Rightarrow> string list \<Rightarrow> PrimitiveItem list" where
  "push_parsed parse src paths = List.map_filter (\<lambda>p. parse p src) paths"

definition SkillPrimitive_discoverItems ::
  "(string \<Rightarrow> error + json \<times> string) \<Rightarrow> env \<Rightarrow> fs \<Rightarrow> error + PrimitiveItem list" where
  "SkillPrimitive_discoverItems matter e f =
     (case discoverSkillPaths f (GLOBAL_SKILLS_DIR e) of
        Inl err \<Rightarrow> Inl err
      | Inr gpaths \<Rightarrow>
          (let items = push_parsed (parseSkill matter f) Global gpaths in
           if path_resolve (cwd e) (LOCAL_SKILLS_DIR e) \<noteq> path_resolve (cwd e) (GLOBAL_SKILLS_DIR e)
           then (case discoverSkillPaths f (LOCAL_SKILLS_DIR e) of
                   Inl err \<Rightarrow> Inl err
                 | Inr lpaths \<Rightarrow> Inr (items @ push_parsed (parseSkill matter f) Local lpaths))
           else Inr items))"

definition DomainPrimitive_discoverItems ::
  "(string \<Rightarrow> error + json \<times> string) \<Rightarrow> env \<Rightarrow> fs \<Rightarrow> error + PrimitiveItem list" where
  "DomainPrimitive_discoverItems matter e f =
     (case discoverDomainPaths f (GLOBAL_DOMAINS_DIR e) of
        Inl err \<Rightarrow> Inl err
      | Inr gpaths \<Rightarrow>
          (let items = push_parsed (parseDomain matter f) Global gpaths in
           case discoverDomainPaths f (LOCAL_DOMAINS_DIR e) of
             Inl err \<Rightarrow> Inl err
           | Inr lpaths \<Rightarrow> Inr (items @ push_parsed (parseDomain matter f) Local lpaths)))"

section \<open>Content loading and prompt formatting (src/primitives/skill.ts, domain.ts)\<close>

text \<open>
  \<^verbatim>\<open>PrimitiveContentSchema\<close>; \<^verbatim>\<open>metadata\<close> is a record from strings to unknown values.
\<close>

record PrimitiveContent =
  item :: PrimitiveItem
  mainContent :: string
  metadata :: "(string \<times> json) list"

text \<open>
  \<^verbatim>\<open>loadContent\<close> is the same in both classes. \<^verbatim>\<open>readdirSync(referencesDir)\<close>, called
  without \<^verbatim>\<open>withFileTypes\<close>, gives the names of the entries.
\<close>

definition loadContent ::
  "(string \<Rightarrow> error + json \<times> string) \<Rightarrow> fs \<Rightarrow> PrimitiveItem \<Rightarrow> error + PrimitiveContent" where
  "loadContent matter f it =
     (case readFileSync f (path it) of
        Inl e \<Rightarrow> Inl e
      | Inr rawContent \<Rightarrow>
          (case matter rawContent of
             Inl e \<Rightarrow> Inl e
           | Inr (data, body) \<Rightarrow>
               (let referencesDir = path_join [dirname (path it), ''references''] in
                case (if existsSync f referencesDir
                      then (case readdirSync f referencesDir of
                              Inl e \<Rightarrow> Inl e
                            | Inr ents \<Rightarrow> Inr (map d_name ents))
                      else Inr []) of
                  Inl e \<Rightarrow> Inl e
                | Inr references \<Rightarrow>
                    Inr \<lparr>item = it, mainContent = body,
                         metadata = [(''references'', JArr (map JStr references))]\<rparr>)))"

text \<open>
  \<^verbatim>\<open>SkillMetadataSchema.parse\<close> and \<^verbatim>\<open>DomainMetadataSchema.parse\<close>, both
  \<^verbatim>\<open>z.object({ references: z.array(z.string()) })\<close>; \<^verbatim>\<open>parse\<close> raises on a mismatch.
\<close>

fun strings_of :: "json list \<Rightarrow> string list option" where
  "strings_of [] = Some []"
| "strings_of (JStr s # vs) = (case strings_of vs of None \<Rightarrow> None | Some ss \<Rightarrow> Some (s # ss))"
| "strings_of (_ # vs) = None"

definition MetadataSchema_parse :: "(string \<times> json) list \<Rightarrow> error + string list" where
  "MetadataSchema_parse md =
     (case map_of md ''references'' of
        Some (JArr vs) \<Rightarrow> (case strings_of vs of None \<Rightarrow> Inl ZodError | Some ss \<Rightarrow> Inr ss)
      | _ \<Rightarrow> Inl ZodError)"

text \<open>\<^verbatim>\<open>xs.map(f)\<close> for an \<open>f\<close> that may raise: the first exception ends the loop.\<close>

fun map_throwing :: "('a \<Rightarrow> error + 'b) \<Rightarrow> 'a list \<Rightarrow> error + 'b list" where
  "map_throwing g [] = Inr []"
| "map_throwing g (x # xs) =
     (case g x of
        Inl e \<Rightarrow> Inl e
      | Inr y \<Rightarrow> (case map_throwing g xs of Inl e \<Rightarrow> Inl e | Inr ys \<Rightarrow> Inr (y # ys)))"

definition divider :: string where
  "divider = replicate 72 (CHR ''='')"

definition thinDivider :: string where
  "thinDivider = replicate 72 (CHR ''-'')"

definition skill_header :: string where
  "skill_header =
     divider @ ''\<newline>AGENT PRIMER: ACTIVE SKILLS FOR THIS SESSION\<newline>'' @ divider @
     ''\<newline>\<newline>The following skills were hand-picked for this session. They contain'' @
     ''\<newline>specialized knowledge, patterns, and best practices that are directly'' @
     ''\<newline>relevant to the work ahead. Treat these as authoritative guidance and'' @
     ''\<newline>follow them when applicable to the user'' @ [CHR 0x27] @ ''s request.'' @
     ''\<newline>\<newline>'' @ thinDivider"

definition skill_footer :: string where
  "skill_footer = ''\<newline>\<newline>'' @ divider @ ''\<newline>END AGENT PRIMER\<newline>'' @ divider"

definition skill_section :: "PrimitiveContent \<Rightarrow> error + string" where
  "skill_section s =
     (let skillDir = dirname (path (item s)) in
      case MetadataSchema_parse (metadata s) of
        Inl e \<Rightarrow> Inl e
      | Inr references \<Rightarrow>
          (let text = ''\<newline>## '' @ name (item s) @ ''\<newline>> Source: '' @ skillDir @
                      ''\<newline>\<newline>'' @ mainContent s
           in if length references > 0
              then Inr (text @ ''\<newline>\<newline>### References bundled with '' @ name (item s) @ '':\<newline>'' @
                        join_with ''\<newline>'' (map (\<lambda>r. ''- '' @ r) references) @
                        ''\<newline>\<newline>Use Skill('' @ name (item s) @ '') to load any reference file.'')
              else Inr text))"

definition SkillPrimitive_formatForPrompt :: "PrimitiveContent list \<Rightarrow> error + string" where
  "SkillPrimitive_formatForPrompt contents =
     (case map_throwing skill_section contents of
        Inl e \<Rightarrow> Inl e
      | Inr sections \<Rightarrow>
          Inr (skill_header @ join_with (''\<newline>\<newline>'' @ thinDivider) sections @ skill_footer))"

definition domain_header :: string where
  "domain_header =
     divider @ ''\<newline>AGENT PRIMER: DOMAIN KNOWLEDGE FOR THIS SESSION\<newline>'' @ divider @
     ''\<newline>\<newline>The following domain knowledge has been loaded for this session. This is'' @
     ''\<newline>reference material describing the concepts, standards, and context'' @
     ''\<newline>relevant to the work ahead. Use it to inform your decisions and avoid'' @
     ''\<newline>redundant research.'' @
     ''\<newline>\<newline>'' @ thinDivider"

definition domain_footer :: string where
  "domain_footer = ''\<newline>\<newline>'' @ divider @ ''\<newline>END DOMAIN KNOWLEDGE\<newline>'' @ divider"

definition domain_section :: "PrimitiveContent \<Rightarrow> error + string" where
  "domain_section d =
     (let domainDir = dirname (path (item d)) in
      case MetadataSchema_parse (metadata d) of
        Inl e \<Rightarrow> Inl e
      | Inr references \<Rightarrow>
          (let text = ''\<newline>## '' @ name (item d) @ ''\<newline>> Source: '' @ domainDir @
                      ''\<newline>\<newline>'' @ mainContent d
           in if length references > 0
              then Inr (text @ ''\<newline>\<newline>### References bundled with '' @ name (item d) @ '':\<newline>'' @
                        join_with ''\<newline>'' (map (\<lambda>r. ''- '' @ r) references) @
                        ''\<newline>\<newline>These files are available in '' @ domainDir @
                        ''/references/ and can be read\<newline>directly when deeper detail is needed.'')
              else Inr text))"

definition DomainPrimitive_formatForPrompt :: "PrimitiveContent list \<Rightarrow> error + string" where
  "DomainPrimitive_formatForPrompt contents =
     (case map_throwing domain_section contents of
        Inl e \<Rightarrow> Inl e
      | Inr sections \<Rightarrow>
          Inr (domain_header @ join_with (''\<newline>\<newline>'' @ thinDivider) sections @ domain_footer))"

section \<open>The orchestrator (index.ts)\<close>

text \<open>
  \<^verbatim>\<open>ParsedArgsSchema\<close>, the result of \<^verbatim>\<open>parseArgs\<close>; the fields \<^verbatim>\<open>help\<close> and
  \<^verbatim>\<open>list\<close> are \<open>helpFlag\<close> and \<open>listFlag\<close> here.
\<close>

record ParsedArgs =
  helpFlag :: bool
  clearRecent :: bool
  listFlag :: bool
  dangerousMode :: bool
  claudeArgs :: "string list"

text \<open>
  What the host provides: \<^verbatim>\<open>JSON.parse\<close> (\<^term>\<open>None\<close> when it raises),
  \<^verbatim>\<open>JSON.stringify\<close>, gray-matter's \<^verbatim>\<open>matter\<close> (the parsed front matter and the
  body, or an exception), \<^verbatim>\<open>localeCompare\<close> and the value of \<^verbatim>\<open>Date.now()\<close>.
\<close>

record host =
  h_JSON_parse :: "string \<Rightarrow> json option"
  h_JSON_stringify :: "json \<Rightarrow> string"
  h_matter :: "string \<Rightarrow> error + json \<times> string"
  h_localeCompare :: "string \<Rightarrow> string \<Rightarrow> real"
  h_now :: real

text \<open>The registry \<^verbatim>\<open>primitives\<close> and \<^verbatim>\<open>primitives.find((p) => p.type === type)\<close>.\<close>

datatype primitive = SkillPrimitive | DomainPrimitive

fun find_primitive :: "string \<Rightarrow> primitive option" where
  "find_primitive ty =
     (if ty = ''skill'' then Some SkillPrimitive
      else if ty = ''domain'' then Some DomainPrimitive
      else None)"

fun formatForPrompt :: "primitive \<Rightarrow> PrimitiveContent list \<Rightarrow> error + string" where
  "formatForPrompt SkillPrimitive contents = SkillPrimitive_formatForPrompt contents"
| "formatForPrompt DomainPrimitive contents = DomainPrimitive_formatForPrompt contents"

text \<open>\<^verbatim>\<open>primitives.flatMap((p) => p.discoverItems())\<close>.\<close>

definition discoverAll :: "host \<Rightarrow> env \<Rightarrow> fs \<Rightarrow> error + PrimitiveItem list" where
  "discoverAll h e f =
     (case SkillPrimitive_discoverItems (h_matter h) e f of
        Inl err \<Rightarrow> Inl err
      | Inr skills \<Rightarrow>
          (case DomainPrimitive_discoverItems (h_matter h) e f of
             Inl err \<Rightarrow> Inl err
           | Inr domains \<Rightarrow> Inr (skills @ domains)))"

text \<open>
  \<^verbatim>\<open>Map.groupBy\<close>: one group for each key, in the order in which the keys first occur,
  each with its elements in their order.
\<close>

function groupBy :: "('a \<Rightarrow> 'k) \<Rightarrow> 'a list \<Rightarrow> ('k \<times> 'a list) list" where
  "groupBy key [] = []"
| "groupBy key (x # xs) =
     (key x, x # filter (\<lambda>y. key y = key x) xs) # groupBy key (filter (\<lambda>y. key y \<noteq> key x) xs)"
  by pat_completeness auto
termination
  by (relation "measure (\<lambda>(key, xs). length xs)") (auto simp: less_Suc_eq_le)

text \<open>
  The answers of the user. A picker (\<^verbatim>\<open>multiselect\<close>) returns the chosen items or
  the cancel symbol; the confirmation (\<^verbatim>\<open>select\<close>) returns one of its three values
  or the cancel symbol. One pass of the selection loop consumes one \<open>round\<close>:
  one pick for each group, then the confirmation. Where the answers stop, the program
  waits for the user and does nothing further.
\<close>

datatype pick = Picked "PrimitiveItem list" | PickCancelled

datatype confirmation = ConfirmYes | ConfirmNo | ConfirmExit | ConfirmCancelled

record round =
  picks :: "pick list"
  confirm :: "confirmation option"

datatype 'a prompted = Answered 'a | Cancelled | Waiting

fun run_pickers ::
  "(string \<times> PrimitiveItem list) list \<Rightarrow> pick list \<Rightarrow> PrimitiveItem list
     \<Rightarrow> PrimitiveItem list prompted" where
  "run_pickers [] ps selectedItems = Answered selectedItems"
| "run_pickers (g # gs) [] selectedItems = Waiting"
| "run_pickers (g # gs) (PickCancelled # ps) selectedItems = Cancelled"
| "run_pickers (g # gs) (Picked selected # ps) selectedItems =
     run_pickers gs ps (selectedItems @ selected)"

fun selection_loop ::
  "(string \<times> PrimitiveItem list) list \<Rightarrow> round list \<Rightarrow> PrimitiveItem list prompted" where
  "selection_loop sortedByType [] = Waiting"
| "selection_loop sortedByType (r # rs) =
     (case run_pickers sortedByType (picks r) [] of
        Cancelled \<Rightarrow> Cancelled
      | Waiting \<Rightarrow> Waiting
      | Answered selectedItems \<Rightarrow>
          (case confirm r of
             None \<Rightarrow> Waiting
           | Some ConfirmCancelled \<Rightarrow> Cancelled
           | Some ConfirmExit \<Rightarrow> Cancelled
           | Some ConfirmYes \<Rightarrow> Answered selectedItems
           | Some ConfirmNo \<Rightarrow> selection_loop sortedByType rs))"

text \<open>
  How a run ends: \<^verbatim>\<open>process.exit(code)\<close>, the spawn of \<^verbatim>\<open>claude\<close> with an argument
  list, or waiting for an answer. An exception that leaves \<^verbatim>\<open>main\<close> is caught by
  \<^verbatim>\<open>main().catch\<close>, which exits with 1.
\<close>

datatype outcome = Exited nat | Spawned "string list" | AwaitingInput

text \<open>The loop over \<^verbatim>\<open>selectedByType\<close> that fills \<^verbatim>\<open>promptSections\<close>.\<close>

fun build_sections ::
  "host \<Rightarrow> fs \<Rightarrow> (string \<times> PrimitiveItem list) list \<Rightarrow> error + string list" where
  "build_sections h f [] = Inr []"
| "build_sections h f ((ty, items) # groups) =
     (case find_primitive ty of
        None \<Rightarrow> build_sections h f groups
      | Some p \<Rightarrow>
          (case map_throwing (loadContent (h_matter h) f) items of
             Inl e \<Rightarrow> Inl e
           | Inr contents \<Rightarrow>
               (case formatForPrompt p contents of
                  Inl e \<Rightarrow> Inl e
                | Inr section \<Rightarrow>
                    (case build_sections h f groups of
                       Inl e \<Rightarrow> Inl e
                     | Inr sections \<Rightarrow> Inr (section # sections)))))"

text \<open>The part of \<^verbatim>\<open>main\<close> after the selection loop (lines 288 to 326).\<close>

definition launch ::
  "host \<Rightarrow> ParsedArgs \<Rightarrow> fs \<Rightarrow> world \<Rightarrow> PrimitiveItem list \<Rightarrow> outcome \<times> world" where
  "launch h args f w selectedItems =
     (let dangerousArgs = (if dangerousMode args then [''--dangerously-skip-permissions''] else []) in
      if length selectedItems = 0 then (Spawned (dangerousArgs @ claudeArgs args), w)
      else
        (case updateCache (h_JSON_parse h) (h_JSON_stringify h) (h_now h) selectedItems w of
           Inl e \<Rightarrow> (Exited 1, w)
         | Inr w' \<Rightarrow>
             (case build_sections h f (groupBy type selectedItems) of
                Inl e \<Rightarrow> (Exited 1, w')
              | Inr promptSections \<Rightarrow>
                  (let systemPrompt = join_with ''\<newline>\<newline>'' promptSections in
                   (Spawned (dangerousArgs @ [''--append-system-prompt'', systemPrompt] @ claudeArgs args),
                    w')))))"

definition main ::
  "host \<Rightarrow> ParsedArgs \<Rightarrow> env \<Rightarrow> fs \<Rightarrow> world \<Rightarrow> round list \<Rightarrow> outcome \<times> world" where
  "main h args e f w script =
     (if helpFlag args then (Exited 0, w)
      else if clearRecent args then
        (case clearCache w of
           Inl err \<Rightarrow> (Exited 0, w)
         | Inr (cleared, w') \<Rightarrow> (Exited 0, w'))
      else
        (case discoverAll h e f of
           Inl err \<Rightarrow> (Exited 1, w)
         | Inr allItems \<Rightarrow>
             if length allItems = 0 then (Exited 1, w)
             else
               (case loadCache (h_JSON_parse h) w of
                  Inl err \<Rightarrow> (Exited 1, w)
                | Inr cache \<Rightarrow>
                    (let sortedItems = sortByRecent (h_localeCompare h) allItems cache in
                     if listFlag args then (Exited 0, w)
                     else
                       (case selection_loop (groupBy type sortedItems) script of
                          Cancelled \<Rightarrow> (Exited 0, w)
                        | Waiting \<Rightarrow> (AwaitingInput, w)
                        | Answered selectedItems \<Rightarrow> launch h args f w selectedItems)))))"

section \<open>Example inputs\<close>

text \<open>Concrete items, caches, stores and file systems used by the examples below.\<close>

definition ex_item :: "string \<Rightarrow> PrimitiveItem" where
  "ex_item n = \<lparr>type = ''skill'', name = n, description = ''d'', path = ''/p'', source = Global\<rparr>"

definition ex_cache10 :: RecentCache where
  "ex_cache10 = \<lparr>recent = [(''skill:global:a'', 1), (''skill:global:b'', 2), (''skill:global:c'', 3),
     (''skill:global:d'', 4), (''skill:global:e'', 5), (''skill:global:f'', 6), (''skill:global:g'', 7),
     (''skill:global:h'', 8), (''skill:global:i'', 9), (''skill:global:j'', 10)]\<rparr>"

definition ex_cache3 :: RecentCache where
  "ex_cache3 = \<lparr>recent = [(''skill:global:beta'', 5000), (''skill:global:alpha'', 5000)]\<rparr>"

definition ex_store :: "PrimitiveItem store" where
  "ex_store = \<lparr>cells = Map.empty(0 \<mapsto> [ex_item ''beta'', ex_item ''gamma'', ex_item ''alpha'']), next_ref = 1\<rparr>"

definition ex_env :: env where
  "ex_env = \<lparr>homedir = ''/home/u'', cwd = ''/proj''\<rparr>"

definition ex_matter :: "string \<Rightarrow> error + json \<times> string" where
  "ex_matter content =
     (if content = ''---\<newline>name: foo\<newline>description: bar\<newline>---\<newline># Foo''
      then Inr (JObj [(''name'', JStr ''foo''), (''description'', JStr ''bar'')], ''# Foo'')
      else if content = ''---\<newline>name: [\<newline>---\<newline>''
      then Inl YAMLError
      else Inr (JObj [], content))"

definition fs_link :: fs where
  "fs_link = \<lparr>
     existsSync = (\<lambda>p. p = ''/home/u/.claude/skills'' \<or> p = ''/home/u/.claude/skills/link''
                      \<or> p = ''/opt/shared/SKILL.md''),
     readdirSync = (\<lambda>p. if p = ''/home/u/.claude/skills''
                         then Inr [\<lparr>d_name = ''link'', isSymbolicLink = True\<rparr>] else Inl FsError),
     realpathSync = (\<lambda>p. if p = ''/home/u/.claude/skills/link'' then Inr ''/opt/shared/SKILL.md''
                          else Inl FsError),
     statSync = (\<lambda>p. if p = ''/home/u/.claude/skills'' then Inr (Some Directory)
                      else if p = ''/opt/shared/SKILL.md'' \<or> p = ''/home/u/.claude/skills/link''
                      then Inr (Some NotDirectory) else Inr None),
     readFileSync = (\<lambda>p. if p = ''/opt/shared/SKILL.md'' \<or> p = ''/home/u/.claude/skills/link''
                          then Inr ''# Shared'' else Inl FsError)\<rparr>"

definition fs_flat :: fs where
  "fs_flat = \<lparr>
     existsSync = (\<lambda>p. p = ''/home/u/.claude/skills'' \<or> p = ''/home/u/.claude/skills/SKILL.md''
                      \<or> p = ''/home/u/.claude/domains'' \<or> p = ''/home/u/.claude/domains/DOMAIN.md''
                      \<or> p = ''/srv/notes.md''),
     readdirSync = (\<lambda>p. if p = ''/home/u/.claude/skills''
                         then Inr [\<lparr>d_name = ''SKILL.md'', isSymbolicLink = False\<rparr>]
                         else if p = ''/home/u/.claude/domains''
                         then Inr [\<lparr>d_name = ''DOMAIN.md'', isSymbolicLink = True\<rparr>]
                         else Inl FsError),
     realpathSync = (\<lambda>p. if p = ''/home/u/.claude/domains/DOMAIN.md'' then Inr ''/srv/notes.md''
                          else Inl FsError),
     statSync = (\<lambda>p. if p = ''/home/u/.claude/skills'' \<or> p = ''/home/u/.claude/domains''
                      then Inr (Some Directory)
                      else if p = ''/home/u/.claude/skills/SKILL.md'' \<or> p = ''/srv/notes.md''
                             \<or> p = ''/home/u/.claude/domains/DOMAIN.md''
                      then Inr (Some NotDirectory) else Inr None),
     readFileSync = (\<lambda>p. if p = ''/home/u/.claude/skills/SKILL.md'' then Inr ''# Root skill''
                          else if p = ''/srv/notes.md'' \<or> p = ''/home/u/.claude/domains/DOMAIN.md''
                          then Inr ''# Notes'' else Inl FsError)\<rparr>"

definition ex_JSON_parse :: "string \<Rightarrow> json option" where
  \<open>ex_JSON_parse text =
     (if text = ''{"recent": "not-an-object"}'' then Some (JObj [(''recent'', JStr ''not-an-object'')])
      else if text = ''{"recent": {"skill:global:foo": 5000}}''
      then Some (JObj [(''recent'', JObj [(''skill:global:foo'', JNum 5000)])])
      else if text = ''{"recent": {}}'' then Some (JObj [(''recent'', JObj [])])
      else None)\<close>

definition ex_JSON_stringify :: "json \<Rightarrow> string" where
  \<open>ex_JSON_stringify v =
     (if v = JObj [(''recent'', JObj [])] then ''{"recent": {}}''
      else if v = JObj [(''recent'', JObj [(''skill:global:foo'', JNum 5000)])]
      then ''{"recent": {"skill:global:foo": 5000}}''
      else ''null'')\<close>

definition ex_world :: "file_state \<Rightarrow> world" where
  "ex_world st = \<lparr>cache_file = st, mkdir_ok = True, write_ok = True, unlink_ok = True\<rparr>"

definition ex_cache0 :: RecentCache where
  "ex_cache0 = \<lparr>recent = [(''skill:global:beta'', 0)]\<rparr>"

definition ex_host :: host where
  "ex_host = \<lparr>h_JSON_parse = ex_JSON_parse, h_JSON_stringify = ex_JSON_stringify,
     h_matter = ex_matter, h_localeCompare = codeunit_compare, h_now = 5000\<rparr>"

definition ex_args :: ParsedArgs where
  "ex_args = \<lparr>helpFlag = False, clearRecent = False, listFlag = False, dangerousMode = True,
     claudeArgs = [''--model'', ''opus'']\<rparr>"

definition ex_content :: PrimitiveContent where
  "ex_content = \<lparr>item = \<lparr>type = ''skill'', name = ''foo'', description = ''bar'',
       path = ''/home/u/.claude/skills/foo/SKILL.md'', source = Global\<rparr>,
     mainContent = ''# Foo'', metadata = [(''references'', JArr [])]\<rparr>"

definition fs_shared :: fs where
  "fs_shared = \<lparr>
     existsSync = (\<lambda>p. p = ''/home/u/.claude/skills'' \<or> p = ''/proj/.claude/skills''
                      \<or> p = ''/home/u/.claude/skills/foo'' \<or> p = ''/proj/.claude/skills/foo''
                      \<or> p = ''/home/u/.claude/skills/foo/SKILL.md''
                      \<or> p = ''/proj/.claude/skills/foo/SKILL.md''),
     readdirSync = (\<lambda>p. if p = ''/home/u/.claude/skills'' \<or> p = ''/proj/.claude/skills''
                         then Inr [\<lparr>d_name = ''foo'', isSymbolicLink = False\<rparr>] else Inl FsError),
     realpathSync = (\<lambda>p. if p = ''/home/u/.claude/skills'' \<or> p = ''/proj/.claude/skills''
                          then Inr ''/home/u/.claude/skills''
                          else if p = ''/home/u/.claude/skills/foo'' \<or> p = ''/proj/.claude/skills/foo''
                          then Inr ''/home/u/.claude/skills/foo''
                          else if p = ''/home/u/.claude/skills/foo/SKILL.md''
                                 \<or> p = ''/proj/.claude/skills/foo/SKILL.md''
                          then Inr ''/home/u/.claude/skills/foo/SKILL.md''
                          else Inl FsError),
     statSync = (\<lambda>p. if p = ''/home/u/.claude/skills'' \<or> p = ''/proj/.claude/skills''
                         \<or> p = ''/home/u/.claude/skills/foo'' \<or> p = ''/proj/.claude/skills/foo''
                      then Inr (Some Directory)
                      else if p = ''/home/u/.claude/skills/foo/SKILL.md''
                             \<or> p = ''/proj/.claude/skills/foo/SKILL.md''
                      then Inr (Some NotDirectory) else Inr None),
     readFileSync = (\<lambda>p. if p = ''/home/u/.claude/skills/foo/SKILL.md''
                            \<or> p = ''/proj/.claude/skills/foo/SKILL.md''
                          then Inr ''---\<newline>name: foo\<newline>description: bar\<newline>---\<newline># Foo''
                          else Inl FsError)\<rparr>"

definition fs_root_link :: fs where
  "fs_root_link = \<lparr>
     existsSync = (\<lambda>p. p = ''/'' \<or> p = ''/SKILL.md'' \<or> p = ''/home/u/.claude/skills''
                      \<or> p = ''/home/u/.claude/skills/everything''),
     readdirSync = (\<lambda>p. if p = ''/home/u/.claude/skills''
                         then Inr [\<lparr>d_name = ''everything'', isSymbolicLink = True\<rparr>]
                         else Inl FsError),
     realpathSync = (\<lambda>p. if p = ''/home/u/.claude/skills/everything'' then Inr ''/''
                          else Inl FsError),
     statSync = (\<lambda>p. if p = ''/'' \<or> p = ''/home/u/.claude/skills''
                         \<or> p = ''/home/u/.claude/skills/everything''
                      then Inr (Some Directory)
                      else if p = ''/SKILL.md'' then Inr (Some NotDirectory) else Inr None),
     readFileSync = (\<lambda>p. if p = ''/SKILL.md'' then Inr ''# Notes'' else Inl FsError)\<rparr>"

definition ex_env_home :: env where
  "ex_env_home = \<lparr>homedir = ''/home/u'', cwd = ''/home/u''\<rparr>"

definition ex_foo :: PrimitiveItem where
  "ex_foo = \<lparr>type = ''skill'', name = ''foo'', description = ''bar'',
     path = ''/home/u/.claude/skills/foo/SKILL.md'', source = Global\<rparr>"

definition ex_script_none :: "round list" where
  "ex_script_none = [\<lparr>picks = [Picked []], confirm = Some ConfirmYes\<rparr>]"

definition ex_script_foo :: "round list" where
  "ex_script_foo = [\<lparr>picks = [Picked []], confirm = Some ConfirmNo\<rparr>,
                    \<lparr>picks = [Picked [ex_foo]], confirm = Some ConfirmYes\<rparr>]"

definition ex_cache11 :: RecentCache where
  "ex_cache11 = \<lparr>recent = [(''skill:global:k'', 11), (''skill:global:j'', 10), (''skill:global:i'', 9),
     (''skill:global:h'', 8), (''skill:global:g'', 7), (''skill:global:f'', 6), (''skill:global:e'', 5),
     (''skill:global:d'', 4), (''skill:global:c'', 3), (''skill:global:b'', 2)]\<rparr>"

definition ex_cache_late :: RecentCache where
  "ex_cache_late = \<lparr>recent = [(''skill:global:a'', 101), (''skill:global:b'', 102),
     (''skill:global:c'', 103), (''skill:global:d'', 104), (''skill:global:e'', 105),
     (''skill:global:f'', 106), (''skill:global:g'', 107), (''skill:global:h'', 108),
     (''skill:global:i'', 109), (''skill:global:j'', 110)]\<rparr>"

definition ex_cache_late_pruned :: RecentCache where
  "ex_cache_late_pruned = \<lparr>recent = [(''skill:global:j'', 110), (''skill:global:i'', 109),
     (''skill:global:h'', 108), (''skill:global:g'', 107), (''skill:global:f'', 106),
     (''skill:global:e'', 105), (''skill:global:d'', 104), (''skill:global:c'', 103),
     (''skill:global:b'', 102), (''skill:global:a'', 101)]\<rparr>"

definition ex_text10 :: string where
  \<open>ex_text10 = ''{"recent": {"skill:global:a": 1, "skill:global:b": 2, "skill:global:c": 3, '' @
     ''"skill:global:d": 4, "skill:global:e": 5, "skill:global:f": 6, "skill:global:g": 7, '' @
     ''"skill:global:h": 8, "skill:global:i": 9, "skill:global:j": 10}}''\<close>

definition ex_text11 :: string where
  \<open>ex_text11 = ''{"recent": {"skill:global:k": 11, "skill:global:j": 10, "skill:global:i": 9, '' @
     ''"skill:global:h": 8, "skill:global:g": 7, "skill:global:f": 6, "skill:global:e": 5, '' @
     ''"skill:global:d": 4, "skill:global:c": 3, "skill:global:b": 2}}''\<close>

definition ex_text_late :: string where
  \<open>ex_text_late = ''{"recent": {"skill:global:a": 101, "skill:global:b": 102, "skill:global:c": 103, '' @
     ''"skill:global:d": 104, "skill:global:e": 105, "skill:global:f": 106, "skill:global:g": 107, '' @
     ''"skill:global:h": 108, "skill:global:i": 109, "skill:global:j": 110}}''\<close>

definition ex_text_late_pruned :: string where
  \<open>ex_text_late_pruned = ''{"recent": {"skill:global:j": 110, "skill:global:i": 109, "skill:global:h": 108, '' @
     ''"skill:global:g": 107, "skill:global:f": 106, "skill:global:e": 105, "skill:global:d": 104, '' @
     ''"skill:global:c": 103, "skill:global:b": 102, "skill:global:a": 101}}''\<close>

definition ex_JSON_parse_recent :: "string \<Rightarrow> json option" where
  "ex_JSON_parse_recent text =
     (if text = ex_text10 then Some (cache_json ex_cache10)
      else if text = ex_text11 then Some (cache_json ex_cache11)
      else if text = ex_text_late then Some (cache_json ex_cache_late)
      else if text = ex_text_late_pruned then Some (cache_json ex_cache_late_pruned)
      else None)"

definition ex_JSON_stringify_recent :: "json \<Rightarrow> string" where
  "ex_JSON_stringify_recent v =
     (if v = cache_json ex_cache10 then ex_text10
      else if v = cache_json ex_cache11 then ex_text11
      else if v = cache_json ex_cache_late then ex_text_late
      else if v = cache_json ex_cache_late_pruned then ex_text_late_pruned
      else ''null'')"

section \<open>Properties of the sort\<close>

lemma mset_insert_by: "mset (insert_by cmp x ys) = add_mset x (mset ys)"
  by (induction ys) auto

lemma mset_array_sort: "mset (array_sort cmp xs) = mset xs"
  unfolding array_sort_def by (induction xs) (auto simp: mset_insert_by)

lemma set_insert_by: "set (insert_by cmp x ys) = insert x (set ys)"
  by (induction ys) auto

lemma length_array_sort: "length (array_sort cmp xs) = length xs"
  using mset_array_sort [of cmp xs] by (metis size_mset)

lemma set_array_sort: "set (array_sort cmp xs) = set xs"
  using mset_array_sort [of cmp xs] by (metis set_mset_mset)

lemma sorted_insert_by:
  assumes "consistent cmp" and "sorted_wrt (\<lambda>a b. cmp a b \<le> 0) ys"
  shows "sorted_wrt (\<lambda>a b. cmp a b \<le> 0) (insert_by cmp x ys)"
  using assms(2)
proof (induction ys)
  case Nil
  then show ?case by simp
next
  case (Cons y ys)
  show ?case
  proof (cases "cmp x y \<le> 0")
    case True
    have "\<forall>z\<in>set ys. cmp x z \<le> 0"
    proof
      fix z assume "z \<in> set ys"
      with Cons.prems have "cmp y z \<le> 0" by simp
      with True assms(1) show "cmp x z \<le> 0" unfolding consistent_def by blast
    qed
    with True Cons.prems show ?thesis by simp
  next
    case False
    with assms(1) have yx: "cmp y x \<le> 0" unfolding consistent_def by blast
    from Cons have "sorted_wrt (\<lambda>a b. cmp a b \<le> 0) (insert_by cmp x ys)" by simp
    with False yx Cons.prems show ?thesis by (auto simp: set_insert_by)
  qed
qed

lemma sorted_array_sort:
  assumes "consistent cmp"
  shows "sorted_wrt (\<lambda>a b. cmp a b \<le> 0) (array_sort cmp xs)"
  unfolding array_sort_def
  by (induction xs) (auto intro: sorted_insert_by [OF assms])

section \<open>updateCache\<close>

lemma consistent_timestamp_desc: "consistent (\<lambda>a b :: string \<times> real. snd b - snd a)"
  unfolding consistent_def by auto

lemma obj_get_obj_set: "obj_get (obj_set k v es) k' = (if k' = k then Some v else obj_get es k')"
  unfolding obj_get_def by (induction es) auto

lemma keys_obj_set: "set (map fst (obj_set k v es)) = insert k (set (map fst es))"
  by (induction es) auto

lemma distinct_obj_set: "distinct (map fst es) \<Longrightarrow> distinct (map fst (obj_set k v es))"
proof (induction es)
  case Nil
  then show ?case by simp
next
  case (Cons e es)
  then show ?case using keys_obj_set [of k v es] by (auto simp del: set_map)
qed

lemma recent_mark_items:
  "recent (mark_items now items cache) =
     foldl (\<lambda>es item. obj_set (cacheKey item) now es) (recent cache) items"
  unfolding mark_items_def by (induction items arbitrary: cache) auto

lemma obj_get_mark_items:
  "obj_get (recent (mark_items now items cache)) k =
     (if k \<in> cacheKey ` set items then Some now else obj_get (recent cache) k)"
  unfolding recent_mark_items
proof (induction items arbitrary: cache)
  case Nil
  then show ?case by simp
next
  case (Cons i items)
  have "obj_get (foldl (\<lambda>es item. obj_set (cacheKey item) now es)
          (recent (cache\<lparr>recent := obj_set (cacheKey i) now (recent cache)\<rparr>)) items) k =
        (if k \<in> cacheKey ` set items then Some now
         else obj_get (recent (cache\<lparr>recent := obj_set (cacheKey i) now (recent cache)\<rparr>)) k)"
    by (rule Cons.IH)
  then show ?case by (auto simp: obj_get_obj_set)
qed

lemma distinct_mark_items:
  "distinct (map fst (recent cache)) \<Longrightarrow> distinct (map fst (recent (mark_items now items cache)))"
  unfolding recent_mark_items
proof (induction items arbitrary: cache)
  case Nil
  then show ?case by simp
next
  case (Cons i items)
  have "distinct (map fst (recent (cache\<lparr>recent := obj_set (cacheKey i) now (recent cache)\<rparr>)))"
    using Cons.prems by (simp add: distinct_obj_set)
  from Cons.IH [OF this] show ?case by simp
qed

lemma take_drop_sorted:
  assumes "sorted_wrt P s" and "x \<in> set (take n s)" and "y \<in> set (drop n s)"
  shows "P x y"
proof -
  from assms(1) have "sorted_wrt P (take n s @ drop n s)" by simp
  then show ?thesis using assms(2,3) unfolding sorted_wrt_append by blast
qed

lemma mset_minus_take: "mset s - mset (take n s) = mset (drop n s)"
proof -
  have "mset s = mset (take n s) + mset (drop n s)"
    by (metis append_take_drop_id mset_append)
  then show ?thesis by simp
qed

lemma prune_small: "length (recent c) \<le> MAX_RECENT \<Longrightarrow> prune c = c"
  unfolding prune_def by (simp add: Let_def)

lemma prune_large:
  "length (recent c) > MAX_RECENT \<Longrightarrow>
   recent (prune c) = take MAX_RECENT (array_sort (\<lambda>a b. snd b - snd a) (recent c))"
  unfolding prune_def by (simp add: Let_def)

lemma prune_length: "length (recent (prune c)) \<le> MAX_RECENT"
  by (cases "length (recent c) > MAX_RECENT") (simp_all add: prune_small prune_large)

lemma prune_mset: "mset (recent (prune c)) \<subseteq># mset (recent c)"
proof (cases "length (recent c) > MAX_RECENT")
  case True
  have "mset (take MAX_RECENT (array_sort (\<lambda>a b. snd b - snd a) (recent c)))
          \<subseteq># mset (array_sort (\<lambda>a b. snd b - snd a) (recent c))"
    by (metis append_take_drop_id mset_append mset_subset_eq_add_left)
  with True show ?thesis by (simp add: prune_large mset_array_sort)
next
  case False
  then show ?thesis by (simp add: prune_small)
qed

lemma prune_keeps_greatest:
  assumes "length (recent c) > MAX_RECENT"
    and "x \<in># mset (recent (prune c))"
    and "y \<in># mset (recent c) - mset (recent (prune c))"
  shows "snd y \<le> snd x"
proof -
  let ?s = "array_sort (\<lambda>a b. snd b - snd a) (recent c)"
  have res: "recent (prune c) = take MAX_RECENT ?s"
    using assms(1) by (rule prune_large)
  have "mset (recent c) - mset (recent (prune c)) = mset (drop MAX_RECENT ?s)"
    unfolding res using mset_minus_take [of ?s MAX_RECENT] by (simp add: mset_array_sort)
  with assms(3) have y: "y \<in> set (drop MAX_RECENT ?s)" by simp
  from assms(2) res have x: "x \<in> set (take MAX_RECENT ?s)" by simp
  have "sorted_wrt (\<lambda>a b. snd b - snd a \<le> 0) ?s"
    by (rule sorted_array_sort [OF consistent_timestamp_desc])
  from take_drop_sorted [OF this x y] show ?thesis by simp
qed

lemma prune_distinct:
  assumes "distinct (map fst (recent c))"
  shows "distinct (map fst (recent (prune c)))"
proof (cases "length (recent c) > MAX_RECENT")
  case True
  let ?s = "array_sort (\<lambda>a b. snd b - snd a) (recent c)"
  have "mset (map fst ?s) = mset (map fst (recent c))"
    by (simp add: mset_array_sort)
  then have "distinct (map fst ?s)" using assms by (metis mset_eq_imp_distinct_iff)
  then have "distinct (take MAX_RECENT (map fst ?s))" by (rule distinct_take)
  then show ?thesis using True by (simp add: prune_large take_map)
next
  case False
  then show ?thesis using assms by (simp add: prune_small)
qed

lemma entry_of_mark_items:
  assumes d: "distinct (map fst (recent cache))"
    and e: "(k, t) \<in> set (recent (mark_items now items cache))"
  shows "(k \<in> cacheKey ` set items \<and> t = now) \<or>
         (k \<notin> cacheKey ` set items \<and> (k, t) \<in> set (recent cache))"
proof -
  have "distinct (map fst (recent (mark_items now items cache)))"
    using d by (rule distinct_mark_items)
  with e have "map_of (recent (mark_items now items cache)) k = Some t" by simp
  then have g: "obj_get (recent (mark_items now items cache)) k = Some t"
    unfolding obj_get_def .
  show ?thesis
  proof (cases "k \<in> cacheKey ` set items")
    case True
    with g show ?thesis by (simp add: obj_get_mark_items)
  next
    case False
    with g have "obj_get (recent cache) k = Some t"
      by (simp add: obj_get_mark_items)
    then have "(k, t) \<in> set (recent cache)" unfolding obj_get_def by (rule map_of_SomeD)
    with False show ?thesis by simp
  qed
qed

lemma marked_entry_present:
  assumes "i \<in> set items"
  shows "(cacheKey i, now) \<in> set (recent (mark_items now items cache))"
proof -
  have "obj_get (recent (mark_items now items cache)) (cacheKey i) = Some now"
    using assms by (simp add: obj_get_mark_items)
  then show ?thesis unfolding obj_get_def by (rule map_of_SomeD)
qed

lemma just_set_items_retained:
  assumes d: "distinct (map fst (recent cache))"
    and old: "\<forall>e \<in> set (recent cache). snd e < now"
    and few: "card (cacheKey ` set items) \<le> 10"
    and i: "i \<in> set items"
  shows "(cacheKey i, now) \<in> set (recent (updateCache_mem now items cache))"
proof (cases "length (recent (mark_items now items cache)) > MAX_RECENT")
  case False
  then have "prune (mark_items now items cache) = mark_items now items cache"
    by (simp add: prune_small)
  with marked_entry_present [OF i] show ?thesis unfolding updateCache_mem_def by simp
next
  case True
  let ?after = "recent (mark_items now items cache)"
  let ?s = "array_sort (\<lambda>a b. snd b - snd a) ?after"
  have res: "recent (updateCache_mem now items cache) = take MAX_RECENT ?s"
    unfolding updateCache_mem_def using True by (rule prune_large)
  show ?thesis
  proof (rule ccontr)
    assume "(cacheKey i, now) \<notin> set (recent (updateCache_mem now items cache))"
    then have notin: "(cacheKey i, now) \<notin> set (take MAX_RECENT ?s)" by (simp add: res)
    have "(cacheKey i, now) \<in> set ?s"
      using marked_entry_present [OF i] by (simp add: set_array_sort)
    moreover have "set ?s = set (take MAX_RECENT ?s) \<union> set (drop MAX_RECENT ?s)"
      by (metis append_take_drop_id set_append)
    ultimately have dropped: "(cacheKey i, now) \<in> set (drop MAX_RECENT ?s)"
      using notin by blast
    have sorted: "sorted_wrt (\<lambda>a b. snd b - snd a \<le> 0) ?s"
      by (rule sorted_array_sort [OF consistent_timestamp_desc])
    have kept_keys: "fst x \<in> cacheKey ` set items" if x: "x \<in> set (take MAX_RECENT ?s)" for x
    proof -
      from take_drop_sorted [OF sorted x dropped] have ge: "now \<le> snd x" by simp
      from x have "x \<in> set ?s" by (rule in_set_takeD)
      then have "(fst x, snd x) \<in> set ?after" by (simp add: set_array_sort)
      from entry_of_mark_items [OF d this]
      show ?thesis
      proof
        assume "fst x \<in> cacheKey ` set items \<and> snd x = now"
        then show ?thesis by (rule conjunct1)
      next
        assume "fst x \<notin> cacheKey ` set items \<and> (fst x, snd x) \<in> set (recent cache)"
        then have "(fst x, snd x) \<in> set (recent cache)" by (rule conjunct2)
        with old have "snd (fst x, snd x) < now" by (rule bspec)
        with ge show ?thesis by simp
      qed
    qed
    have "mset (map fst ?s) = mset (map fst ?after)" by (simp add: mset_array_sort)
    moreover have "distinct (map fst ?after)" using d by (rule distinct_mark_items)
    ultimately have ds: "distinct (map fst ?s)" by (metis mset_eq_imp_distinct_iff)
    then have "distinct (map fst (take MAX_RECENT ?s) @ map fst (drop MAX_RECENT ?s))"
      by (metis append_take_drop_id map_append)
    then have dk: "distinct (map fst (take MAX_RECENT ?s))"
      and disj: "set (map fst (take MAX_RECENT ?s)) \<inter> set (map fst (drop MAX_RECENT ?s)) = {}"
      unfolding distinct_append by blast+
    have "fst (cacheKey i, now) \<in> fst ` set (drop MAX_RECENT ?s)"
      using dropped by (rule imageI)
    then have "cacheKey i \<in> set (map fst (drop MAX_RECENT ?s))"
      by (simp only: fst_conv set_map)
    with disj have ni: "cacheKey i \<notin> set (map fst (take MAX_RECENT ?s))" by blast
    have "length (take MAX_RECENT ?s) = MAX_RECENT"
      using True by (simp add: length_array_sort)
    with dk have "card (set (map fst (take MAX_RECENT ?s))) = MAX_RECENT"
      by (metis distinct_card length_map)
    with ni have "card (insert (cacheKey i) (set (map fst (take MAX_RECENT ?s)))) = Suc MAX_RECENT"
      by simp
    moreover have "insert (cacheKey i) (set (map fst (take MAX_RECENT ?s))) \<subseteq> cacheKey ` set items"
      using kept_keys i by auto
    then have "card (insert (cacheKey i) (set (map fst (take MAX_RECENT ?s)))) \<le> card (cacheKey ` set items)"
      by (intro card_mono) simp_all
    ultimately show False using few by (simp add: MAX_RECENT_def)
  qed
qed

lemma loadCache_returns: "\<exists>cache. loadCache JSON_parse w = Inr cache"
  unfolding loadCache_def by (auto split: sum.splits option.splits)

lemma updateCache_saves:
  assumes "loadCache JSON_parse w = Inr cache"
  shows "updateCache JSON_parse JSON_stringify now items w =
           saveCache JSON_stringify (updateCache_mem now items cache) w"
    and "mkdir_ok w \<and> write_ok w \<longrightarrow>
           updateCache JSON_parse JSON_stringify now items w =
             Inr (w\<lparr>cache_file := File (JSON_stringify (cache_json (updateCache_mem now items cache)))\<rparr>)"
    and "\<not> (mkdir_ok w \<and> write_ok w) \<longrightarrow>
           updateCache JSON_parse JSON_stringify now items w = Inr w"
  using assms unfolding updateCache_def saveCache_def saveCache_try_def by auto

text \<open>
  Claim C1, as amended. A call to \<^verbatim>\<open>updateCache\<close> loads a cache, which \<^verbatim>\<open>loadCache\<close>
  always provides, and passes \<^verbatim>\<open>saveCache\<close> the marked and pruned cache; when the
  directory and the file can be written, that cache is what the cache file holds
  afterwards, and otherwise the world is as it was. The cache passed has at most 10
  entries. After the loop every given item's key holds \<open>now\<close> and every other key
  holds what it held. The pruning only removes entries and keeps the keys different;
  with at most 10 entries nothing is removed, and with more than 10 exactly 10 are kept
  and no kept entry has a smaller timestamp than a discarded one. The entries just set
  are all among those kept when every timestamp loaded is earlier than \<open>now\<close> and at
  most 10 different keys are given.
\<close>

theorem updateCache_keeps_ten_most_recent:
  "\<exists>cache. loadCache JSON_parse w = Inr cache \<and>
     updateCache JSON_parse JSON_stringify now items w =
       saveCache JSON_stringify (updateCache_mem now items cache) w \<and>
     (mkdir_ok w \<and> write_ok w \<longrightarrow>
        updateCache JSON_parse JSON_stringify now items w =
          Inr (w\<lparr>cache_file := File (JSON_stringify (cache_json (updateCache_mem now items cache)))\<rparr>)) \<and>
     (\<not> (mkdir_ok w \<and> write_ok w) \<longrightarrow>
        updateCache JSON_parse JSON_stringify now items w = Inr w) \<and>
     length (recent (updateCache_mem now items cache)) \<le> 10 \<and>
     (\<forall>k. obj_get (recent (mark_items now items cache)) k =
          (if k \<in> cacheKey ` set items then Some now else obj_get (recent cache) k)) \<and>
     mset (recent (updateCache_mem now items cache)) \<subseteq># mset (recent (mark_items now items cache)) \<and>
     (distinct (map fst (recent cache)) \<longrightarrow>
        distinct (map fst (recent (updateCache_mem now items cache)))) \<and>
     (length (recent (mark_items now items cache)) \<le> 10 \<longrightarrow>
        updateCache_mem now items cache = mark_items now items cache) \<and>
     (length (recent (mark_items now items cache)) > 10 \<longrightarrow>
        length (recent (updateCache_mem now items cache)) = 10 \<and>
        (\<forall>x \<in># mset (recent (updateCache_mem now items cache)).
         \<forall>y \<in># mset (recent (mark_items now items cache)) - mset (recent (updateCache_mem now items cache)).
           snd y \<le> snd x)) \<and>
     (distinct (map fst (recent cache)) \<and> (\<forall>e \<in> set (recent cache). snd e < now) \<and>
      card (cacheKey ` set items) \<le> 10 \<longrightarrow>
        (\<forall>i \<in> set items. (cacheKey i, now) \<in> set (recent (updateCache_mem now items cache))))"
proof -
  from loadCache_returns obtain cache where c: "loadCache JSON_parse w = Inr cache" by blast
  let ?after = "mark_items now items cache"
  note s = updateCache_saves [OF c, of JSON_stringify now items]
  have 1: "length (recent (updateCache_mem now items cache)) \<le> 10"
    unfolding updateCache_mem_def using prune_length [of ?after] by (simp add: MAX_RECENT_def)
  have 2: "\<forall>k. obj_get (recent ?after) k =
        (if k \<in> cacheKey ` set items then Some now else obj_get (recent cache) k)"
    by (simp add: obj_get_mark_items)
  have 3: "mset (recent (updateCache_mem now items cache)) \<subseteq># mset (recent ?after)"
    unfolding updateCache_mem_def by (rule prune_mset)
  have 4: "distinct (map fst (recent cache)) \<longrightarrow>
      distinct (map fst (recent (updateCache_mem now items cache)))"
    unfolding updateCache_mem_def by (simp add: prune_distinct distinct_mark_items)
  have 5: "length (recent ?after) \<le> 10 \<longrightarrow> updateCache_mem now items cache = ?after"
    unfolding updateCache_mem_def by (simp add: prune_small MAX_RECENT_def)
  have 6: "length (recent ?after) > 10 \<longrightarrow> length (recent (updateCache_mem now items cache)) = 10"
    unfolding updateCache_mem_def by (simp add: prune_large MAX_RECENT_def length_array_sort)
  have 7: "length (recent ?after) > 10 \<longrightarrow>
      (\<forall>x \<in># mset (recent (updateCache_mem now items cache)).
       \<forall>y \<in># mset (recent ?after) - mset (recent (updateCache_mem now items cache)). snd y \<le> snd x)"
    unfolding updateCache_mem_def using prune_keeps_greatest [of ?after] by (simp add: MAX_RECENT_def)
  have 8: "distinct (map fst (recent cache)) \<and> (\<forall>e \<in> set (recent cache). snd e < now) \<and>
      card (cacheKey ` set items) \<le> 10 \<longrightarrow>
        (\<forall>i \<in> set items. (cacheKey i, now) \<in> set (recent (updateCache_mem now items cache)))"
    using just_set_items_retained [of cache now items] by blast
  from 6 7 have 67: "length (recent ?after) > 10 \<longrightarrow>
        length (recent (updateCache_mem now items cache)) = 10 \<and>
        (\<forall>x \<in># mset (recent (updateCache_mem now items cache)).
         \<forall>y \<in># mset (recent ?after) - mset (recent (updateCache_mem now items cache)).
           snd y \<le> snd x)"
    by blast
  show ?thesis
    by (rule exI [of _ cache]) (intro conjI c s 1 2 3 4 5 67 8)
qed

lemma ex_loadCache10: "loadCache ex_JSON_parse_recent (ex_world (File ex_text10)) = Inr ex_cache10"
  by code_simp

lemma ex_updateCache_mem11: "updateCache_mem 11 [ex_item ''k''] ex_cache10 = ex_cache11"
  by code_simp

lemma ex_updateCache11:
  "updateCache ex_JSON_parse_recent ex_JSON_stringify_recent 11 [ex_item ''k''] (ex_world (File ex_text10)) =
     Inr (ex_world (File ex_text11))"
  by code_simp

text \<open>
  A file of ten entries recorded at times 1 to 10 and one new item selected at time
  11: the file written holds ten entries, the new one among them and the one of time 1
  gone.
\<close>

theorem updateCache_keeps_ten_most_recent_witness:
  "loadCache ex_JSON_parse_recent (ex_world (File ex_text10)) = Inr ex_cache10 \<and>
   updateCache ex_JSON_parse_recent ex_JSON_stringify_recent 11 [ex_item ''k''] (ex_world (File ex_text10)) =
     Inr (ex_world (File ex_text11)) \<and>
   loadCache ex_JSON_parse_recent (ex_world (File ex_text11)) = Inr ex_cache11 \<and>
   updateCache_mem 11 [ex_item ''k''] ex_cache10 = ex_cache11 \<and>
   length (recent (mark_items 11 [ex_item ''k''] ex_cache10)) = 11 \<and>
   length (recent ex_cache11) = 10 \<and>
   (cacheKey (ex_item ''k''), 11) \<in> set (recent ex_cache11) \<and>
   (''skill:global:a'', 1) \<notin> set (recent ex_cache11)"
proof -
  from updateCache_keeps_ten_most_recent
    [of ex_JSON_parse_recent "ex_world (File ex_text10)" ex_JSON_stringify_recent 11 "[ex_item ''k'']"]
  obtain cache where c: "loadCache ex_JSON_parse_recent (ex_world (File ex_text10)) = Inr cache"
    and len: "length (recent (mark_items 11 [ex_item ''k''] cache)) > 10 \<longrightarrow>
        length (recent (updateCache_mem 11 [ex_item ''k''] cache)) = 10"
    and recent: "distinct (map fst (recent cache)) \<and> (\<forall>e \<in> set (recent cache). snd e < 11) \<and>
      card (cacheKey ` set [ex_item ''k'']) \<le> 10 \<longrightarrow>
        (\<forall>i \<in> set [ex_item ''k'']. (cacheKey i, 11) \<in> set (recent (updateCache_mem 11 [ex_item ''k''] cache)))"
    by blast
  from c ex_loadCache10 have cache: "cache = ex_cache10" by simp
  have l11: "length (recent (mark_items 11 [ex_item ''k''] ex_cache10)) = 11" by code_simp
  have h: "distinct (map fst (recent ex_cache10)) \<and> (\<forall>e \<in> set (recent ex_cache10). snd e < 11) \<and>
      card (cacheKey ` set [ex_item ''k'']) \<le> 10"
    by (simp add: ex_cache10_def)
  from len l11 have "length (recent ex_cache11) = 10"
    unfolding cache ex_updateCache_mem11 by simp
  moreover from recent h have "(cacheKey (ex_item ''k''), 11) \<in> set (recent ex_cache11)"
    unfolding cache ex_updateCache_mem11 by simp
  moreover have "(''skill:global:a'', 1) \<notin> set (recent ex_cache11)"
    by (simp add: ex_cache11_def)
  moreover have "loadCache ex_JSON_parse_recent (ex_world (File ex_text11)) = Inr ex_cache11"
    by code_simp
  ultimately show ?thesis
    using ex_loadCache10 ex_updateCache11 ex_updateCache_mem11 l11 by blast
qed

text \<open>
  Claim C1 as stated fails where it calls the entries kept the most recently set ones:
  the file holds ten entries with the timestamps 101 to 110, and the clock reads 50
  when the item \<open>k\<close> is selected. The ten old entries have the greatest timestamps and
  are kept; the entry of \<open>k\<close>, the one just set, is discarded and is not in the file
  written.
\<close>

theorem updateCache_drops_just_set_entry_counterexample:
  "loadCache ex_JSON_parse_recent (ex_world (File ex_text_late)) = Inr ex_cache_late \<and>
   updateCache ex_JSON_parse_recent ex_JSON_stringify_recent 50 [ex_item ''k'']
       (ex_world (File ex_text_late)) =
     Inr (ex_world (File ex_text_late_pruned)) \<and>
   loadCache ex_JSON_parse_recent (ex_world (File ex_text_late_pruned)) = Inr ex_cache_late_pruned \<and>
   updateCache_mem 50 [ex_item ''k''] ex_cache_late = ex_cache_late_pruned \<and>
   cacheKey (ex_item ''k'') = ''skill:global:k'' \<and>
   obj_get (recent ex_cache_late_pruned) ''skill:global:k'' = None"
  by code_simp

section \<open>sortByRecent\<close>

lemma or_zero_cached_time: "or_zero (obj_get (recent cache) (cacheKey a)) = cached_time cache a"
  unfolding cached_time_def by (cases "obj_get (recent cache) (cacheKey a)") auto

lemma recent_cmp_before: "recent_cmp lc cache a b \<le> 0 \<longleftrightarrow> recent_before lc cache a b"
  unfolding recent_cmp_def recent_before_def by (auto simp: Let_def or_zero_cached_time)

lemma consistent_recent_cmp:
  assumes "consistent lc"
  shows "consistent (recent_cmp lc cache)"
proof -
  have total: "\<And>a b. lc a b \<le> 0 \<or> lc b a \<le> 0"
    and trans: "\<And>a b c. lc a b \<le> 0 \<Longrightarrow> lc b c \<le> 0 \<Longrightarrow> lc a c \<le> 0"
    using assms unfolding consistent_def by blast+
  have "recent_before lc cache a b \<or> recent_before lc cache b a" for a b
    unfolding recent_before_def using total [of "name a" "name b"] by auto
  moreover have "recent_before lc cache a c"
    if "recent_before lc cache a b" and "recent_before lc cache b c" for a b c
    using that trans [of "name a" "name b" "name c"] unfolding recent_before_def by auto
  ultimately show ?thesis
    unfolding consistent_def recent_cmp_before by blast
qed

lemma sortByRecent_sorted:
  assumes "consistent lc"
  shows "sorted_wrt (recent_before lc cache) (sortByRecent lc items cache)"
proof -
  have "sorted_wrt (\<lambda>a b. recent_cmp lc cache a b \<le> 0) (sortByRecent lc items cache)"
    unfolding sortByRecent_def by (rule sorted_array_sort [OF consistent_recent_cmp [OF assms]])
  then show ?thesis by (simp add: recent_cmp_before)
qed

lemma sortByRecent_store_frame:
  assumes "cells s r = Some items" and "r < next_ref s"
  shows "\<exists>s'. sortByRecent_store lc r cache s = Some (next_ref s, s') \<and>
           cells s' r = Some items \<and>
           cells s' (next_ref s) = Some (sortByRecent lc items cache) \<and>
           (\<forall>q. q \<noteq> next_ref s \<longrightarrow> cells s' q = cells s q)"
  using assms
  unfolding sortByRecent_store_def spread_def sort_in_place_def sortByRecent_def
  by auto

lemma three_items:
  assumes a: "obj_get (recent cache) (cacheKey A) = Some 5000"
    and b: "obj_get (recent cache) (cacheKey B) = None"
    and c: "obj_get (recent cache) (cacheKey C) = Some 5000"
    and ca: "lc (name C) (name A) < 0" and ac: "lc (name A) (name C) > 0"
  shows "sortByRecent lc [A, B, C] cache = [C, A, B]"
    and "sortByRecent lc [A, C, B] cache = [C, A, B]"
    and "sortByRecent lc [B, A, C] cache = [C, A, B]"
    and "sortByRecent lc [B, C, A] cache = [C, A, B]"
    and "sortByRecent lc [C, A, B] cache = [C, A, B]"
    and "sortByRecent lc [C, B, A] cache = [C, A, B]"
proof -
  have AB: "recent_cmp lc cache A B < 0" and BA: "recent_cmp lc cache B A > 0"
    and CB: "recent_cmp lc cache C B < 0" and BC: "recent_cmp lc cache B C > 0"
    and AC: "recent_cmp lc cache A C > 0" and CA: "recent_cmp lc cache C A < 0"
    using a b c ca ac unfolding recent_cmp_def by (simp_all add: Let_def)
  show "sortByRecent lc [A, B, C] cache = [C, A, B]"
    and "sortByRecent lc [A, C, B] cache = [C, A, B]"
    and "sortByRecent lc [B, A, C] cache = [C, A, B]"
    and "sortByRecent lc [B, C, A] cache = [C, A, B]"
    and "sortByRecent lc [C, A, B] cache = [C, A, B]"
    and "sortByRecent lc [C, B, A] cache = [C, A, B]"
    using AB BA CB BC AC CA unfolding sortByRecent_def array_sort_def by simp_all
qed

text \<open>
  Claim C2. With a consistent \<^verbatim>\<open>localeCompare\<close>, the result of \<^verbatim>\<open>sortByRecent\<close> is a
  permutation of the items in which every item comes before the items with a smaller
  cached timestamp (no entry counting as 0) and, among equal timestamps, before the
  names that compare greater. On the store the result is a newly allocated array and
  the argument array, like every other array, is left as it was. For items A
  (timestamp 5000), B (no entry) and C (timestamp 5000, name before A's) the result is
  [C, A, B] in whichever order they are given.
\<close>

theorem sortByRecent_ordered:
  assumes "consistent lc"
  shows "mset (sortByRecent lc items cache) = mset items \<and>
     sorted_wrt (recent_before lc cache) (sortByRecent lc items cache) \<and>
     (cells s r = Some items \<and> r < next_ref s \<longrightarrow>
        (\<exists>s'. sortByRecent_store lc r cache s = Some (next_ref s, s') \<and>
           cells s' r = Some items \<and>
           cells s' (next_ref s) = Some (sortByRecent lc items cache) \<and>
           (\<forall>q. q \<noteq> next_ref s \<longrightarrow> cells s' q = cells s q))) \<and>
     (obj_get (recent cache) (cacheKey A) = Some 5000 \<and>
      obj_get (recent cache) (cacheKey B) = None \<and>
      obj_get (recent cache) (cacheKey C) = Some 5000 \<and>
      lc (name C) (name A) < 0 \<and> lc (name A) (name C) > 0 \<longrightarrow>
        sortByRecent lc [A, B, C] cache = [C, A, B] \<and>
        sortByRecent lc [A, C, B] cache = [C, A, B] \<and>
        sortByRecent lc [B, A, C] cache = [C, A, B] \<and>
        sortByRecent lc [B, C, A] cache = [C, A, B] \<and>
        sortByRecent lc [C, A, B] cache = [C, A, B] \<and>
        sortByRecent lc [C, B, A] cache = [C, A, B])"
proof -
  have "mset (sortByRecent lc items cache) = mset items"
    unfolding sortByRecent_def by (rule mset_array_sort)
  moreover note sortByRecent_sorted [OF assms, of cache items]
  moreover have "cells s r = Some items \<and> r < next_ref s \<longrightarrow>
        (\<exists>s'. sortByRecent_store lc r cache s = Some (next_ref s, s') \<and>
           cells s' r = Some items \<and>
           cells s' (next_ref s) = Some (sortByRecent lc items cache) \<and>
           (\<forall>q. q \<noteq> next_ref s \<longrightarrow> cells s' q = cells s q))"
    using sortByRecent_store_frame [of s r items lc cache] by blast
  moreover have "obj_get (recent cache) (cacheKey A) = Some 5000 \<and>
      obj_get (recent cache) (cacheKey B) = None \<and>
      obj_get (recent cache) (cacheKey C) = Some 5000 \<and>
      lc (name C) (name A) < 0 \<and> lc (name A) (name C) > 0 \<longrightarrow>
        sortByRecent lc [A, B, C] cache = [C, A, B] \<and>
        sortByRecent lc [A, C, B] cache = [C, A, B] \<and>
        sortByRecent lc [B, A, C] cache = [C, A, B] \<and>
        sortByRecent lc [B, C, A] cache = [C, A, B] \<and>
        sortByRecent lc [C, A, B] cache = [C, A, B] \<and>
        sortByRecent lc [C, B, A] cache = [C, A, B]"
    using three_items [of cache A B C lc] by blast
  ultimately show ?thesis by blast
qed

lemma consistent_codeunit_compare: "consistent codeunit_compare"
  unfolding consistent_def codeunit_compare_def by auto

text \<open>
  The example with names beta (A), gamma (B) and alpha (C), compared by code units.
\<close>

theorem sortByRecent_ordered_witness:
  "consistent codeunit_compare \<and>
   sortByRecent codeunit_compare [ex_item ''beta'', ex_item ''gamma'', ex_item ''alpha''] ex_cache3
     = [ex_item ''alpha'', ex_item ''beta'', ex_item ''gamma''] \<and>
   sorted_wrt (recent_before codeunit_compare ex_cache3)
     [ex_item ''alpha'', ex_item ''beta'', ex_item ''gamma''] \<and>
   (\<exists>s'. sortByRecent_store codeunit_compare 0 ex_cache3 ex_store = Some (1, s') \<and>
      cells s' 0 = Some [ex_item ''beta'', ex_item ''gamma'', ex_item ''alpha''] \<and>
      cells s' 1 = Some [ex_item ''alpha'', ex_item ''beta'', ex_item ''gamma''])"
proof -
  have h: "obj_get (recent ex_cache3) (cacheKey (ex_item ''beta'')) = Some 5000 \<and>
      obj_get (recent ex_cache3) (cacheKey (ex_item ''gamma'')) = None \<and>
      obj_get (recent ex_cache3) (cacheKey (ex_item ''alpha'')) = Some 5000 \<and>
      codeunit_compare (name (ex_item ''alpha'')) (name (ex_item ''beta'')) < 0 \<and>
      codeunit_compare (name (ex_item ''beta'')) (name (ex_item ''alpha'')) > 0"
    by (simp add: ex_cache3_def ex_item_def cacheKey_def obj_get_def codeunit_compare_def)
  have s: "cells ex_store 0 = Some [ex_item ''beta'', ex_item ''gamma'', ex_item ''alpha''] \<and> 0 < next_ref ex_store"
    by (simp add: ex_store_def)
  have n: "next_ref ex_store = 1" by (simp add: ex_store_def)
  show ?thesis
    using sortByRecent_ordered [OF consistent_codeunit_compare,
        of "[ex_item ''beta'', ex_item ''gamma'', ex_item ''alpha'']" ex_cache3 ex_store 0
           "ex_item ''beta''" "ex_item ''gamma''" "ex_item ''alpha''"] h s n
    by (auto simp: consistent_codeunit_compare)
qed

text \<open>
  Claim C9. Two caches that differ only in that one maps a key to 0 where the other
  has no entry for it give the same result of \<^verbatim>\<open>sortByRecent\<close>, for every list of
  items.
\<close>

theorem sortByRecent_zero_is_absent:
  assumes "obj_get (recent c0) k = Some 0"
    and "obj_get (recent c1) k = None"
    and "\<forall>k'. k' \<noteq> k \<longrightarrow> obj_get (recent c0) k' = obj_get (recent c1) k'"
  shows "sortByRecent lc items c0 = sortByRecent lc items c1"
proof -
  have "or_zero (obj_get (recent c0) k') = or_zero (obj_get (recent c1) k')" for k'
    using assms by (cases "k' = k") simp_all
  then have "recent_cmp lc c0 = recent_cmp lc c1"
    unfolding recent_cmp_def by (intro ext) simp
  then show ?thesis unfolding sortByRecent_def by simp
qed

text \<open>
  A cache that stores 0 for the key of \<open>beta\<close> and the empty cache order the two
  items alike.
\<close>

theorem sortByRecent_zero_is_absent_witness:
  "obj_get (recent ex_cache0) ''skill:global:beta'' = Some 0 \<and>
   obj_get (recent empty_cache) ''skill:global:beta'' = None \<and>
   sortByRecent codeunit_compare [ex_item ''beta'', ex_item ''alpha''] ex_cache0 =
   sortByRecent codeunit_compare [ex_item ''beta'', ex_item ''alpha''] empty_cache \<and>
   sortByRecent codeunit_compare [ex_item ''beta'', ex_item ''alpha''] empty_cache =
     [ex_item ''alpha'', ex_item ''beta'']"
proof -
  have a: "obj_get (recent ex_cache0) ''skill:global:beta'' = Some 0"
    by (simp add: ex_cache0_def obj_get_def)
  have b: "obj_get (recent empty_cache) ''skill:global:beta'' = None"
    by (simp add: empty_cache_def obj_get_def)
  have c: "\<forall>k'. k' \<noteq> ''skill:global:beta'' \<longrightarrow>
             obj_get (recent ex_cache0) k' = obj_get (recent empty_cache) k'"
    by (simp add: ex_cache0_def empty_cache_def obj_get_def)
  have d: "sortByRecent codeunit_compare [ex_item ''beta'', ex_item ''alpha''] empty_cache =
     [ex_item ''alpha'', ex_item ''beta'']"
    by (simp add: sortByRecent_def array_sort_def recent_cmp_def empty_cache_def obj_get_def
        ex_item_def codeunit_compare_def)
  from sortByRecent_zero_is_absent [OF a b c, of codeunit_compare "[ex_item ''beta'', ex_item ''alpha'']"]
    a b d
  show ?thesis by simp
qed

section \<open>loadCache\<close>

text \<open>
  Claim C3. \<^verbatim>\<open>loadCache\<close> always returns a cache and never raises. It returns the
  empty cache when the file is missing, when it cannot be read, when \<^verbatim>\<open>JSON.parse\<close>
  rejects its text (as it rejects the empty text), and when the parsed value does not
  match the schema, as \<^verbatim>\<open>{"recent": "not-an-object"}\<close> does not.
\<close>

theorem loadCache_total:
  "(\<exists>cache. loadCache JSON_parse w = Inr cache) \<and>
   (cache_file w = Missing \<longrightarrow> loadCache JSON_parse w = Inr \<lparr>recent = []\<rparr>) \<and>
   (cache_file w = Unreadable \<longrightarrow> loadCache JSON_parse w = Inr \<lparr>recent = []\<rparr>) \<and>
   (\<forall>data. cache_file w = File data \<and> JSON_parse data = None \<longrightarrow>
      loadCache JSON_parse w = Inr \<lparr>recent = []\<rparr>) \<and>
   (cache_file w = File [] \<and> JSON_parse [] = None \<longrightarrow>
      loadCache JSON_parse w = Inr \<lparr>recent = []\<rparr>) \<and>
   (\<forall>data v. cache_file w = File data \<and> JSON_parse data = Some v \<and>
       RecentCacheSchema_safeParse v = None \<longrightarrow>
      loadCache JSON_parse w = Inr \<lparr>recent = []\<rparr>) \<and>
   RecentCacheSchema_safeParse (JObj [(''recent'', JStr ''not-an-object'')]) = None \<and>
   (\<forall>data. cache_file w = File data \<and>
       JSON_parse data = Some (JObj [(''recent'', JStr ''not-an-object'')]) \<longrightarrow>
      loadCache JSON_parse w = Inr \<lparr>recent = []\<rparr>)"
  unfolding loadCache_def loadCache_try_def existsSync_cache_def readFileSync_cache_def empty_cache_def
  by (auto split: sum.splits option.splits file_state.splits)

text \<open>
  The four cases on a concrete \<^verbatim>\<open>JSON.parse\<close>: no file, an unreadable file, an
  empty file and a file whose \<^verbatim>\<open>recent\<close> is a string.
\<close>

theorem loadCache_total_witness:
  \<open>loadCache ex_JSON_parse (ex_world Missing) = Inr \<lparr>recent = []\<rparr> \<and>
   loadCache ex_JSON_parse (ex_world Unreadable) = Inr \<lparr>recent = []\<rparr> \<and>
   ex_JSON_parse [] = None \<and>
   loadCache ex_JSON_parse (ex_world (File [])) = Inr \<lparr>recent = []\<rparr> \<and>
   ex_JSON_parse ''{"recent": "not-an-object"}'' = Some (JObj [(''recent'', JStr ''not-an-object'')]) \<and>
   loadCache ex_JSON_parse (ex_world (File ''{"recent": "not-an-object"}'')) = Inr \<lparr>recent = []\<rparr>\<close>
proof -
  have p: \<open>ex_JSON_parse [] = None \<and>
      ex_JSON_parse ''{"recent": "not-an-object"}'' = Some (JObj [(''recent'', JStr ''not-an-object'')])\<close>
    by (simp add: ex_JSON_parse_def)
  have w: "cache_file (ex_world st) = st" for st
    by (simp add: ex_world_def)
  show ?thesis
    using loadCache_total [of ex_JSON_parse "ex_world Missing"]
      loadCache_total [of ex_JSON_parse "ex_world Unreadable"]
      loadCache_total [of ex_JSON_parse "ex_world (File [])"]
      loadCache_total [of ex_JSON_parse \<open>ex_world (File ''{"recent": "not-an-object"}'')\<close>]
      p
    by (simp add: w)
qed

section \<open>Scanning a root directory\<close>

lemma scan_step:
  assumes "scan_entries required f dir (x # entries) paths0 = Inr paths"
  shows "\<exists>paths1. scan_entries required f dir entries paths1 = Inr paths \<and>
     (paths1 = paths0 \<or>
      (\<exists>realPath.
        (if isSymbolicLink x then realpathSync f (path_join [dir, d_name x])
         else Inr (path_join [dir, d_name x])) = Inr realPath \<and>
        ((statSync f realPath = Inr (Some Directory) \<and>
          existsSync f (path_join [realPath, required]) \<and>
          paths1 = paths0 @ [path_join [realPath, required]]) \<or>
         (statSync f realPath \<noteq> Inr (Some Directory) \<and> d_name x = required \<and>
          paths1 = paths0 @ [path_join [dir, required]]))))"
proof (cases "if isSymbolicLink x then realpathSync f (path_join [dir, d_name x])
         else Inr (path_join [dir, d_name x])")
  case (Inl e)
  with assms have "scan_entries required f dir entries paths0 = Inr paths"
    by (simp add: Let_def)
  then show ?thesis by blast
next
  case (Inr realPath)
  then obtain stat where st: "statSync f realPath = Inr stat"
    using assms by (cases "statSync f realPath") (auto simp: Let_def)
  consider (dir_found) "stat = Some Directory" "existsSync f (path_join [realPath, required])"
    | (dir_empty) "stat = Some Directory" "\<not> existsSync f (path_join [realPath, required])"
    | (file_named) "stat \<noteq> Some Directory" "d_name x = required"
    | (other) "stat \<noteq> Some Directory" "d_name x \<noteq> required"
    by blast
  then show ?thesis
  proof cases
    case dir_found
    with Inr st assms
    have "scan_entries required f dir entries (paths0 @ [path_join [realPath, required]]) = Inr paths"
      by (simp add: Let_def)
    with Inr st dir_found show ?thesis by blast
  next
    case dir_empty
    with Inr st assms have "scan_entries required f dir entries paths0 = Inr paths"
      by (simp add: Let_def)
    then show ?thesis by blast
  next
    case file_named
    from Inr st assms file_named(1) file_named(2) [symmetric]
    have "scan_entries required f dir entries (paths0 @ [path_join [dir, required]]) = Inr paths"
      by (simp add: Let_def)
    moreover have "statSync f realPath \<noteq> Inr (Some Directory)"
      using st file_named by simp
    ultimately show ?thesis using Inr file_named by blast
  next
    case other
    with Inr st assms have "scan_entries required f dir entries paths0 = Inr paths"
      by (simp add: Let_def)
    then show ?thesis by blast
  qed
qed

lemma scan_entries_mono:
  "scan_entries required f dir entries paths0 = Inr paths \<Longrightarrow> set paths0 \<subseteq> set paths"
proof (induction entries arbitrary: paths0)
  case Nil
  then show ?case by simp
next
  case (Cons x entries)
  from scan_step [OF Cons.prems]
  have "\<exists>paths1. scan_entries required f dir entries paths1 = Inr paths \<and>
          set paths0 \<subseteq> set paths1"
    by fastforce
  then obtain paths1
    where 1: "scan_entries required f dir entries paths1 = Inr paths"
      and 2: "set paths0 \<subseteq> set paths1"
    by blast
  from Cons.IH [OF 1] 2 show ?case by blast
qed

lemma scan_entries_records:
  assumes "scan_entries required f dir entries paths0 = Inr paths"
    and "entry \<in> set entries"
    and "d_name entry = required"
    and "(if isSymbolicLink entry then realpathSync f (path_join [dir, required])
          else Inr (path_join [dir, required])) = Inr realPath"
    and "statSync f realPath = Inr stat"
    and "stat \<noteq> Some Directory"
  shows "path_join [dir, required] \<in> set paths"
  using assms(1,2)
proof (induction entries arbitrary: paths0)
  case Nil
  then show ?case by simp
next
  case (Cons x entries)
  show ?case
  proof (cases "x = entry")
    case True
    have "scan_entries required f dir entries (paths0 @ [path_join [dir, required]]) = Inr paths"
      using Cons.prems(1) assms(4-6) True assms(3) [symmetric]
      by (cases "isSymbolicLink entry") (simp_all add: Let_def)
    from scan_entries_mono [OF this] show ?thesis by simp
  next
    case False
    with Cons.prems(2) have "entry \<in> set entries" by simp
    moreover obtain paths1 where "scan_entries required f dir entries paths1 = Inr paths"
      using scan_step [OF Cons.prems(1)] by blast
    ultimately show ?thesis using Cons.IH by blast
  qed
qed

lemma scan_entries_origin:
  assumes "scan_entries required f dir entries paths0 = Inr paths"
    and "p \<in> set paths"
  shows "p \<in> set paths0 \<or>
     (\<exists>entry \<in> set entries. \<exists>realPath.
        (if isSymbolicLink entry then realpathSync f (path_join [dir, d_name entry])
         else Inr (path_join [dir, d_name entry])) = Inr realPath \<and>
        ((statSync f realPath = Inr (Some Directory) \<and>
          existsSync f (path_join [realPath, required]) \<and> p = path_join [realPath, required]) \<or>
         (statSync f realPath \<noteq> Inr (Some Directory) \<and> d_name entry = required \<and>
          p = path_join [dir, required])))"
  using assms(1)
proof (induction entries arbitrary: paths0)
  case Nil
  with assms(2) show ?case by simp
next
  case (Cons x entries)
  from scan_step [OF Cons.prems] obtain paths1
    where 1: "scan_entries required f dir entries paths1 = Inr paths"
      and 2: "paths1 = paths0 \<or>
      (\<exists>realPath.
        (if isSymbolicLink x then realpathSync f (path_join [dir, d_name x])
         else Inr (path_join [dir, d_name x])) = Inr realPath \<and>
        ((statSync f realPath = Inr (Some Directory) \<and>
          existsSync f (path_join [realPath, required]) \<and>
          paths1 = paths0 @ [path_join [realPath, required]]) \<or>
         (statSync f realPath \<noteq> Inr (Some Directory) \<and> d_name x = required \<and>
          paths1 = paths0 @ [path_join [dir, required]])))"
    by blast
  from Cons.IH [OF 1] have "p \<in> set paths1 \<or>
     (\<exists>entry \<in> set entries. \<exists>realPath.
        (if isSymbolicLink entry then realpathSync f (path_join [dir, d_name entry])
         else Inr (path_join [dir, d_name entry])) = Inr realPath \<and>
        ((statSync f realPath = Inr (Some Directory) \<and>
          existsSync f (path_join [realPath, required]) \<and> p = path_join [realPath, required]) \<or>
         (statSync f realPath \<noteq> Inr (Some Directory) \<and> d_name entry = required \<and>
          p = path_join [dir, required])))" .
  then show ?case
  proof
    assume "p \<in> set paths1"
    with 2 show ?thesis by auto
  next
    assume "\<exists>entry \<in> set entries. \<exists>realPath.
        (if isSymbolicLink entry then realpathSync f (path_join [dir, d_name entry])
         else Inr (path_join [dir, d_name entry])) = Inr realPath \<and>
        ((statSync f realPath = Inr (Some Directory) \<and>
          existsSync f (path_join [realPath, required]) \<and> p = path_join [realPath, required]) \<or>
         (statSync f realPath \<noteq> Inr (Some Directory) \<and> d_name entry = required \<and>
          p = path_join [dir, required]))"
    then show ?thesis by auto
  qed
qed

text \<open>
  Claim C4, as amended. An entry of the scanned root whose own name is the required
  file name (\<^verbatim>\<open>SKILL.md\<close> for skills, \<^verbatim>\<open>DOMAIN.md\<close> for domains), whose link, when it
  is a symbolic link, resolves, and whose resolved target is not a directory, is
  recorded by a scan that completes, under the entry's own path \<^verbatim>\<open>join(dir, name)\<close>.
  Every recorded path comes from such an entry or from an entry that resolves to a
  directory containing the required file; the file name of a link's target plays no
  part.
\<close>

theorem discover_records_entry_named_as_required:
  "(discoverSkillPaths f dir = Inr paths \<and> existsSync f dir \<and> readdirSync f dir = Inr entries \<and>
    entry \<in> set entries \<and> d_name entry = ''SKILL.md'' \<and>
    (if isSymbolicLink entry then realpathSync f (path_join [dir, ''SKILL.md''])
     else Inr (path_join [dir, ''SKILL.md''])) = Inr realPath \<and>
    statSync f realPath = Inr stat \<and> stat \<noteq> Some Directory
    \<longrightarrow> path_join [dir, ''SKILL.md''] \<in> set paths) \<and>
   (discoverDomainPaths f dir = Inr paths \<and> existsSync f dir \<and> readdirSync f dir = Inr entries \<and>
    entry \<in> set entries \<and> d_name entry = ''DOMAIN.md'' \<and>
    (if isSymbolicLink entry then realpathSync f (path_join [dir, ''DOMAIN.md''])
     else Inr (path_join [dir, ''DOMAIN.md''])) = Inr realPath \<and>
    statSync f realPath = Inr stat \<and> stat \<noteq> Some Directory
    \<longrightarrow> path_join [dir, ''DOMAIN.md''] \<in> set paths) \<and>
   (discoverSkillPaths f dir = Inr paths \<and> readdirSync f dir = Inr entries \<and> p \<in> set paths
    \<longrightarrow> (\<exists>entry \<in> set entries. \<exists>realPath.
          (if isSymbolicLink entry then realpathSync f (path_join [dir, d_name entry])
           else Inr (path_join [dir, d_name entry])) = Inr realPath \<and>
          ((statSync f realPath = Inr (Some Directory) \<and>
            existsSync f (path_join [realPath, ''SKILL.md'']) \<and> p = path_join [realPath, ''SKILL.md'']) \<or>
           (statSync f realPath \<noteq> Inr (Some Directory) \<and> d_name entry = ''SKILL.md'' \<and>
            p = path_join [dir, ''SKILL.md''])))) \<and>
   (discoverDomainPaths f dir = Inr paths \<and> readdirSync f dir = Inr entries \<and> p \<in> set paths
    \<longrightarrow> (\<exists>entry \<in> set entries. \<exists>realPath.
          (if isSymbolicLink entry then realpathSync f (path_join [dir, d_name entry])
           else Inr (path_join [dir, d_name entry])) = Inr realPath \<and>
          ((statSync f realPath = Inr (Some Directory) \<and>
            existsSync f (path_join [realPath, ''DOMAIN.md'']) \<and> p = path_join [realPath, ''DOMAIN.md'']) \<or>
           (statSync f realPath \<noteq> Inr (Some Directory) \<and> d_name entry = ''DOMAIN.md'' \<and>
            p = path_join [dir, ''DOMAIN.md'']))))"
proof -
  have rec: "path_join [dir, required] \<in> set paths"
    if "discoverPaths required f dir = Inr paths" "existsSync f dir" "readdirSync f dir = Inr entries"
      "entry \<in> set entries" "d_name entry = required"
      "(if isSymbolicLink entry then realpathSync f (path_join [dir, required])
        else Inr (path_join [dir, required])) = Inr realPath"
      "statSync f realPath = Inr stat" "stat \<noteq> Some Directory" for required
  proof -
    from that(1-3) have "scan_entries required f dir entries [] = Inr paths"
      unfolding discoverPaths_def by simp
    from scan_entries_records [OF this that(4-8)] show ?thesis .
  qed
  have orig: "\<exists>entry \<in> set entries. \<exists>realPath.
          (if isSymbolicLink entry then realpathSync f (path_join [dir, d_name entry])
           else Inr (path_join [dir, d_name entry])) = Inr realPath \<and>
          ((statSync f realPath = Inr (Some Directory) \<and>
            existsSync f (path_join [realPath, required]) \<and> p = path_join [realPath, required]) \<or>
           (statSync f realPath \<noteq> Inr (Some Directory) \<and> d_name entry = required \<and>
            p = path_join [dir, required]))"
    if "discoverPaths required f dir = Inr paths" "readdirSync f dir = Inr entries" "p \<in> set paths"
    for required
  proof -
    from that have "scan_entries required f dir entries [] = Inr paths"
      unfolding discoverPaths_def by (auto split: if_splits)
    from scan_entries_origin [OF this that(3)] show ?thesis by simp
  qed
  show ?thesis
    unfolding discoverSkillPaths_def discoverDomainPaths_def
    using rec [of "''SKILL.md''"] rec [of "''DOMAIN.md''"] orig [of "''SKILL.md''"] orig [of "''DOMAIN.md''"]
    by blast
qed

lemma fs_flat_skills: "discoverSkillPaths fs_flat ''/home/u/.claude/skills'' = Inr [''/home/u/.claude/skills/SKILL.md'']"
  by code_simp

lemma fs_flat_domains: "discoverDomainPaths fs_flat ''/home/u/.claude/domains'' = Inr [''/home/u/.claude/domains/DOMAIN.md'']"
  by code_simp

lemma path_join_skill: "path_join [''/home/u/.claude/skills'', ''SKILL.md''] = ''/home/u/.claude/skills/SKILL.md''"
  by code_simp

lemma path_join_domain: "path_join [''/home/u/.claude/domains'', ''DOMAIN.md''] = ''/home/u/.claude/domains/DOMAIN.md''"
  by code_simp

text \<open>
  A root holding a regular file \<^verbatim>\<open>SKILL.md\<close>, and a root holding a symbolic link
  \<^verbatim>\<open>DOMAIN.md\<close> to a file of another name: both are recorded under the entry's path.
\<close>

theorem discover_records_entry_named_as_required_witness:
  "discoverSkillPaths fs_flat ''/home/u/.claude/skills'' = Inr [''/home/u/.claude/skills/SKILL.md''] \<and>
   statSync fs_flat ''/home/u/.claude/skills/SKILL.md'' = Inr (Some NotDirectory) \<and>
   path_join [''/home/u/.claude/skills'', ''SKILL.md''] \<in> set [''/home/u/.claude/skills/SKILL.md''] \<and>
   discoverDomainPaths fs_flat ''/home/u/.claude/domains'' = Inr [''/home/u/.claude/domains/DOMAIN.md''] \<and>
   realpathSync fs_flat ''/home/u/.claude/domains/DOMAIN.md'' = Inr ''/srv/notes.md'' \<and>
   statSync fs_flat ''/srv/notes.md'' = Inr (Some NotDirectory) \<and>
   path_join [''/home/u/.claude/domains'', ''DOMAIN.md''] \<in> set [''/home/u/.claude/domains/DOMAIN.md'']"
proof -
  have a: "existsSync fs_flat ''/home/u/.claude/skills'' \<and>
      readdirSync fs_flat ''/home/u/.claude/skills'' = Inr [\<lparr>d_name = ''SKILL.md'', isSymbolicLink = False\<rparr>] \<and>
      statSync fs_flat ''/home/u/.claude/skills/SKILL.md'' = Inr (Some NotDirectory)"
    by (simp add: fs_flat_def)
  have b: "existsSync fs_flat ''/home/u/.claude/domains'' \<and>
      readdirSync fs_flat ''/home/u/.claude/domains'' = Inr [\<lparr>d_name = ''DOMAIN.md'', isSymbolicLink = True\<rparr>] \<and>
      realpathSync fs_flat ''/home/u/.claude/domains/DOMAIN.md'' = Inr ''/srv/notes.md'' \<and>
      statSync fs_flat ''/srv/notes.md'' = Inr (Some NotDirectory)"
    by (simp add: fs_flat_def)
  show ?thesis
    using discover_records_entry_named_as_required
      [of fs_flat "''/home/u/.claude/skills''" "[''/home/u/.claude/skills/SKILL.md'']"
          "[\<lparr>d_name = ''SKILL.md'', isSymbolicLink = False\<rparr>]"
          "\<lparr>d_name = ''SKILL.md'', isSymbolicLink = False\<rparr>"
          "''/home/u/.claude/skills/SKILL.md''" "Some NotDirectory"]
      discover_records_entry_named_as_required
      [of fs_flat "''/home/u/.claude/domains''" "[''/home/u/.claude/domains/DOMAIN.md'']"
          "[\<lparr>d_name = ''DOMAIN.md'', isSymbolicLink = True\<rparr>]"
          "\<lparr>d_name = ''DOMAIN.md'', isSymbolicLink = True\<rparr>"
          "''/srv/notes.md''" "Some NotDirectory"]
      a b
    by (simp add: fs_flat_skills fs_flat_domains path_join_skill path_join_domain)
qed

text \<open>
  Claim C4 as stated fails: the entry \<^verbatim>\<open>link\<close> is a symbolic link that resolves to
  the file \<^verbatim>\<open>/opt/shared/SKILL.md\<close>, a file with the required name, and nothing is
  recorded, because the name that is compared is the entry's, \<^verbatim>\<open>link\<close>.
\<close>

theorem discover_symlink_to_required_file_counterexample:
  "existsSync fs_link ''/home/u/.claude/skills'' \<and>
   readdirSync fs_link ''/home/u/.claude/skills'' = Inr [\<lparr>d_name = ''link'', isSymbolicLink = True\<rparr>] \<and>
   realpathSync fs_link (path_join [''/home/u/.claude/skills'', ''link'']) = Inr ''/opt/shared/SKILL.md'' \<and>
   statSync fs_link ''/opt/shared/SKILL.md'' = Inr (Some NotDirectory) \<and>
   basename ''/opt/shared/SKILL.md'' = ''SKILL.md'' \<and>
   discoverSkillPaths fs_link ''/home/u/.claude/skills'' = Inr []"
  by code_simp

section \<open>discoverItems and item construction\<close>

lemma push_parsed_member:
  "i \<in> set (push_parsed parse src paths) \<longleftrightarrow> (\<exists>p \<in> set paths. parse p src = Some i)"
  unfolding push_parsed_def by (induction paths) (auto split: option.splits)

lemma or_else_empty: "or_else x d = [] \<Longrightarrow> d = []"
  by (cases x) (auto split: if_splits)

lemma basename_empty: "basename p = [] \<longleftrightarrow> set p \<subseteq> {CHR ''/''}"
proof -
  let ?q = "dropWhile (\<lambda>c. c = CHR ''/'') (rev p)"
  have "basename p = [] \<longleftrightarrow> takeWhile (\<lambda>c. c \<noteq> CHR ''/'') ?q = []"
    unfolding basename_def by simp
  also have "\<dots> \<longleftrightarrow> ?q = []"
  proof (cases ?q)
    case Nil
    show ?thesis unfolding Nil by simp
  next
    case (Cons c cs)
    then have "c \<noteq> CHR ''/''" using hd_dropWhile [of "\<lambda>c. c = CHR ''/''" "rev p"] by auto
    then show ?thesis unfolding Cons by simp
  qed
  also have "\<dots> \<longleftrightarrow> set p \<subseteq> {CHR ''/''}"
    by (auto simp: dropWhile_eq_Nil_conv)
  finally show ?thesis .
qed

lemma parsePrimitive_Inr:
  assumes "parsePrimitive ty m f p src = Inr i"
  shows "\<exists>content data body. readFileSync f p = Inr content \<and> m content = Inr (data, body) \<and>
     i = \<lparr>type = ty,
          name = or_else (case FrontmatterSchema_safeParse data of
                            None \<Rightarrow> None | Some fm \<Rightarrow> fm_name fm) (basename (dirname p)),
          description = or_else (case FrontmatterSchema_safeParse data of
                                   None \<Rightarrow> None | Some fm \<Rightarrow> fm_description fm)
                                ''No description provided'',
          path = p, source = src\<rparr>"
proof (cases "readFileSync f p")
  case (Inl err)
  with assms show ?thesis unfolding parsePrimitive_def by simp
next
  case c: (Inr content)
  show ?thesis
  proof (cases "m content")
    case (Inl err)
    with assms c show ?thesis unfolding parsePrimitive_def by simp
  next
    case (Inr db)
    obtain data body where db: "db = (data, body)" by (cases db)
    show ?thesis
    proof (cases "FrontmatterSchema_safeParse data")
      case None
      with assms c Inr db show ?thesis unfolding parsePrimitive_def by (simp add: Let_def)
    next
      case (Some fm)
      with assms c Inr db show ?thesis unfolding parsePrimitive_def by (simp add: Let_def)
    qed
  qed
qed

lemma parsePrimitive_fields:
  assumes "parsePrimitive ty m f p src = Inr i"
  shows "description i \<noteq> [] \<and> (name i = [] \<longrightarrow> basename (dirname p) = []) \<and> path i = p"
proof -
  from parsePrimitive_Inr [OF assms] obtain data where
    i: "i = \<lparr>type = ty,
          name = or_else (case FrontmatterSchema_safeParse data of
                            None \<Rightarrow> None | Some fm \<Rightarrow> fm_name fm) (basename (dirname p)),
          description = or_else (case FrontmatterSchema_safeParse data of
                                   None \<Rightarrow> None | Some fm \<Rightarrow> fm_description fm)
                                ''No description provided'',
          path = p, source = src\<rparr>"
    by blast
  have "description i = [] \<Longrightarrow> False"
    by (subst (asm) i) (auto dest: or_else_empty)
  moreover have "name i = [] \<Longrightarrow> basename (dirname p) = []"
    by (subst (asm) i) (auto dest: or_else_empty)
  moreover have "path i = p" by (subst i) simp
  ultimately show ?thesis by blast
qed

lemma parseSkill_Some: "parseSkill m f p src = Some i \<longleftrightarrow> parsePrimitive ''skill'' m f p src = Inr i"
  unfolding parseSkill_def by (cases "parsePrimitive ''skill'' m f p src") auto

lemma parseDomain_Some: "parseDomain m f p src = Some i \<longleftrightarrow> parsePrimitive ''domain'' m f p src = Inr i"
  unfolding parseDomain_def by (cases "parsePrimitive ''domain'' m f p src") auto

lemma skill_items_origin:
  assumes "SkillPrimitive_discoverItems m e f = Inr items" and "i \<in> set items"
  shows "\<exists>p src. parsePrimitive ''skill'' m f p src = Inr i"
proof -
  from assms(1) obtain gpaths where g: "discoverSkillPaths f (GLOBAL_SKILLS_DIR e) = Inr gpaths"
    unfolding SkillPrimitive_discoverItems_def
    by (cases "discoverSkillPaths f (GLOBAL_SKILLS_DIR e)") auto
  show ?thesis
  proof (cases "path_resolve (cwd e) (LOCAL_SKILLS_DIR e) = path_resolve (cwd e) (GLOBAL_SKILLS_DIR e)")
    case True
    with assms(1) g have "items = push_parsed (parseSkill m f) Global gpaths"
      unfolding SkillPrimitive_discoverItems_def by (simp add: Let_def)
    with assms(2) show ?thesis by (auto simp: push_parsed_member parseSkill_Some)
  next
    case False
    with assms(1) g obtain lpaths where
      "items = push_parsed (parseSkill m f) Global gpaths @ push_parsed (parseSkill m f) Local lpaths"
      unfolding SkillPrimitive_discoverItems_def
      by (cases "discoverSkillPaths f (LOCAL_SKILLS_DIR e)") (auto simp: Let_def)
    with assms(2) show ?thesis by (auto simp: push_parsed_member parseSkill_Some)
  qed
qed

lemma domain_items_origin:
  assumes "DomainPrimitive_discoverItems m e f = Inr items" and "i \<in> set items"
  shows "\<exists>p src. parsePrimitive ''domain'' m f p src = Inr i"
proof -
  from assms(1) obtain gpaths where g: "discoverDomainPaths f (GLOBAL_DOMAINS_DIR e) = Inr gpaths"
    unfolding DomainPrimitive_discoverItems_def
    by (cases "discoverDomainPaths f (GLOBAL_DOMAINS_DIR e)") auto
  with assms(1) obtain lpaths where
    "items = push_parsed (parseDomain m f) Global gpaths @ push_parsed (parseDomain m f) Local lpaths"
    unfolding DomainPrimitive_discoverItems_def
    by (cases "discoverDomainPaths f (LOCAL_DOMAINS_DIR e)") (auto simp: Let_def)
  with assms(2) show ?thesis by (auto simp: push_parsed_member parseDomain_Some)
qed

text \<open>
  Claim C6, as amended. Every item that discovery returns, for skills and for
  domains, has a non-empty description, and its name is empty only if the directory
  containing its file consists of slashes only, that is, is the root of the file
  system. The name is the front matter's \<^verbatim>\<open>name\<close> when the front matter is valid and
  that is a non-empty string, and the base name of the containing directory otherwise;
  the description is the front matter's \<^verbatim>\<open>description\<close> under the same condition and
  the literal \<^verbatim>\<open>No description provided\<close> otherwise.
\<close>

theorem discovered_item_name_and_description:
  "(SkillPrimitive_discoverItems m e f = Inr items \<and> i \<in> set items \<longrightarrow>
      description i \<noteq> [] \<and> (name i = [] \<longrightarrow> set (dirname (path i)) \<subseteq> {CHR ''/''})) \<and>
   (DomainPrimitive_discoverItems m e f = Inr items \<and> i \<in> set items \<longrightarrow>
      description i \<noteq> [] \<and> (name i = [] \<longrightarrow> set (dirname (path i)) \<subseteq> {CHR ''/''})) \<and>
   (parseSkill m f p src = Some i \<or> parseDomain m f p src = Some i \<longrightarrow>
      (\<exists>content data body. readFileSync f p = Inr content \<and> m content = Inr (data, body) \<and>
         name i = or_else (case FrontmatterSchema_safeParse data of
                             None \<Rightarrow> None | Some fm \<Rightarrow> fm_name fm) (basename (dirname p)) \<and>
         description i = or_else (case FrontmatterSchema_safeParse data of
                                    None \<Rightarrow> None | Some fm \<Rightarrow> fm_description fm)
                                 ''No description provided''))"
proof -
  have gen: "description i \<noteq> [] \<and> (name i = [] \<longrightarrow> set (dirname (path i)) \<subseteq> {CHR ''/''})"
    if "parsePrimitive ty m f q s = Inr i" for ty q s
    using parsePrimitive_fields [OF that] basename_empty [of "dirname q"] by simp
  have 1: "SkillPrimitive_discoverItems m e f = Inr items \<and> i \<in> set items \<longrightarrow>
      description i \<noteq> [] \<and> (name i = [] \<longrightarrow> set (dirname (path i)) \<subseteq> {CHR ''/''})"
    using skill_items_origin [of m e f items i] gen by blast
  have 2: "DomainPrimitive_discoverItems m e f = Inr items \<and> i \<in> set items \<longrightarrow>
      description i \<noteq> [] \<and> (name i = [] \<longrightarrow> set (dirname (path i)) \<subseteq> {CHR ''/''})"
    using domain_items_origin [of m e f items i] gen by blast
  have 3: "parseSkill m f p src = Some i \<or> parseDomain m f p src = Some i \<longrightarrow>
      (\<exists>content data body. readFileSync f p = Inr content \<and> m content = Inr (data, body) \<and>
         name i = or_else (case FrontmatterSchema_safeParse data of
                             None \<Rightarrow> None | Some fm \<Rightarrow> fm_name fm) (basename (dirname p)) \<and>
         description i = or_else (case FrontmatterSchema_safeParse data of
                                    None \<Rightarrow> None | Some fm \<Rightarrow> fm_description fm)
                                 ''No description provided'')"
  proof
    assume "parseSkill m f p src = Some i \<or> parseDomain m f p src = Some i"
    then obtain ty where "parsePrimitive ty m f p src = Inr i"
      unfolding parseSkill_Some parseDomain_Some by blast
    from parsePrimitive_Inr [OF this] obtain content data body where
      "readFileSync f p = Inr content" "m content = Inr (data, body)"
      and i: "i = \<lparr>type = ty,
          name = or_else (case FrontmatterSchema_safeParse data of
                            None \<Rightarrow> None | Some fm \<Rightarrow> fm_name fm) (basename (dirname p)),
          description = or_else (case FrontmatterSchema_safeParse data of
                                   None \<Rightarrow> None | Some fm \<Rightarrow> fm_description fm)
                                ''No description provided'',
          path = p, source = src\<rparr>"
      by blast
    moreover have "name i = or_else (case FrontmatterSchema_safeParse data of
                             None \<Rightarrow> None | Some fm \<Rightarrow> fm_name fm) (basename (dirname p))"
      by (subst i) simp
    moreover have "description i = or_else (case FrontmatterSchema_safeParse data of
                                    None \<Rightarrow> None | Some fm \<Rightarrow> fm_description fm)
                                 ''No description provided''"
      by (subst i) simp
    ultimately show "\<exists>content data body. readFileSync f p = Inr content \<and> m content = Inr (data, body) \<and>
         name i = or_else (case FrontmatterSchema_safeParse data of
                             None \<Rightarrow> None | Some fm \<Rightarrow> fm_name fm) (basename (dirname p)) \<and>
         description i = or_else (case FrontmatterSchema_safeParse data of
                                    None \<Rightarrow> None | Some fm \<Rightarrow> fm_description fm)
                                 ''No description provided''"
      by blast
  qed
  from 1 2 3 show ?thesis by blast
qed

lemma fs_flat_skill_items:
  "SkillPrimitive_discoverItems ex_matter ex_env fs_flat =
     Inr [\<lparr>type = ''skill'', name = ''skills'', description = ''No description provided'',
           path = ''/home/u/.claude/skills/SKILL.md'', source = Global\<rparr>]"
  by code_simp

text \<open>
  A \<^verbatim>\<open>SKILL.md\<close> without front matter directly in the global root: the name is the
  root's base name and the description is the placeholder.
\<close>

theorem discovered_item_name_and_description_witness:
  "SkillPrimitive_discoverItems ex_matter ex_env fs_flat =
     Inr [\<lparr>type = ''skill'', name = ''skills'', description = ''No description provided'',
           path = ''/home/u/.claude/skills/SKILL.md'', source = Global\<rparr>] \<and>
   description \<lparr>type = ''skill'', name = ''skills'', description = ''No description provided'',
           path = ''/home/u/.claude/skills/SKILL.md'', source = Global\<rparr> \<noteq> [] \<and>
   name \<lparr>type = ''skill'', name = ''skills'', description = ''No description provided'',
           path = ''/home/u/.claude/skills/SKILL.md'', source = Global\<rparr> \<noteq> []"
proof -
  let ?A = "\<lparr>type = ''skill'', name = ''skills'', description = ''No description provided'',
           path = ''/home/u/.claude/skills/SKILL.md'', source = Global\<rparr>"
  note t = discovered_item_name_and_description
      [of ex_matter ex_env fs_flat "[?A]" ?A, THEN conjunct1]
  have "?A \<in> set [?A]" by (simp only: list.set insertI1)
  with t fs_flat_skill_items have "description ?A \<noteq> []" by blast
  moreover have "name ?A \<noteq> []" by simp
  ultimately show ?thesis using fs_flat_skill_items by blast
qed

text \<open>
  Claim C6 as stated fails: the global root holds a symbolic link to \<^verbatim>\<open>/\<close>, and
  \<^verbatim>\<open>/SKILL.md\<close> has no front matter. The item is discovered, and its name is the base
  name of \<^verbatim>\<open>/\<close>, the empty string.
\<close>

theorem discovered_item_empty_name_counterexample:
  "SkillPrimitive_discoverItems ex_matter ex_env fs_root_link =
     Inr [\<lparr>type = ''skill'', name = [], description = ''No description provided'',
           path = ''/SKILL.md'', source = Global\<rparr>]"
  by code_simp

section \<open>The two roots\<close>

lemma parsePrimitive_source: "parsePrimitive ty m f p src = Inr i \<Longrightarrow> source i = src"
  by (drule parsePrimitive_Inr) auto

lemma same_home_same_roots:
  assumes "homedir e = cwd e"
  shows "LOCAL_SKILLS_DIR e = GLOBAL_SKILLS_DIR e" and "LOCAL_DOMAINS_DIR e = GLOBAL_DOMAINS_DIR e"
  using assms
  unfolding LOCAL_SKILLS_DIR_def GLOBAL_SKILLS_DIR_def LOCAL_DOMAINS_DIR_def GLOBAL_DOMAINS_DIR_def
  by simp_all

lemma skill_items_equal_roots:
  assumes "path_resolve (cwd e) (LOCAL_SKILLS_DIR e) = path_resolve (cwd e) (GLOBAL_SKILLS_DIR e)"
  shows "SkillPrimitive_discoverItems m e f =
     (case discoverSkillPaths f (GLOBAL_SKILLS_DIR e) of
        Inl err \<Rightarrow> Inl err
      | Inr gpaths \<Rightarrow> Inr (push_parsed (parseSkill m f) Global gpaths))"
  using assms unfolding SkillPrimitive_discoverItems_def
  by (cases "discoverSkillPaths f (GLOBAL_SKILLS_DIR e)") (simp_all add: Let_def)

lemma skill_items_different_roots:
  assumes "path_resolve (cwd e) (LOCAL_SKILLS_DIR e) \<noteq> path_resolve (cwd e) (GLOBAL_SKILLS_DIR e)"
  shows "SkillPrimitive_discoverItems m e f =
     (case discoverSkillPaths f (GLOBAL_SKILLS_DIR e) of
        Inl err \<Rightarrow> Inl err
      | Inr gpaths \<Rightarrow>
          (case discoverSkillPaths f (LOCAL_SKILLS_DIR e) of
             Inl err \<Rightarrow> Inl err
           | Inr lpaths \<Rightarrow> Inr (push_parsed (parseSkill m f) Global gpaths @
                                  push_parsed (parseSkill m f) Local lpaths)))"
  using assms unfolding SkillPrimitive_discoverItems_def
  by (cases "discoverSkillPaths f (GLOBAL_SKILLS_DIR e)") (simp_all add: Let_def)

lemma skill_items_all_global:
  assumes "path_resolve (cwd e) (LOCAL_SKILLS_DIR e) = path_resolve (cwd e) (GLOBAL_SKILLS_DIR e)"
    and "SkillPrimitive_discoverItems m e f = Inr items"
    and "i \<in> set items"
  shows "source i = Global"
proof -
  from assms(2) obtain gpaths where "discoverSkillPaths f (GLOBAL_SKILLS_DIR e) = Inr gpaths"
    and "items = push_parsed (parseSkill m f) Global gpaths"
    unfolding skill_items_equal_roots [OF assms(1)]
    by (cases "discoverSkillPaths f (GLOBAL_SKILLS_DIR e)") auto
  with assms(3) obtain p where "parseSkill m f p Global = Some i"
    by (auto simp: push_parsed_member)
  then show ?thesis
    unfolding parseSkill_Some by (rule parsePrimitive_source)
qed

lemma domain_items_same_home:
  assumes "homedir e = cwd e"
  shows "DomainPrimitive_discoverItems m e f =
     (case discoverDomainPaths f (GLOBAL_DOMAINS_DIR e) of
        Inl err \<Rightarrow> Inl err
      | Inr gpaths \<Rightarrow> Inr (push_parsed (parseDomain m f) Global gpaths @
                             push_parsed (parseDomain m f) Local gpaths))"
  unfolding DomainPrimitive_discoverItems_def same_home_same_roots(2) [OF assms]
  by (cases "discoverDomainPaths f (GLOBAL_DOMAINS_DIR e)") (simp_all add: Let_def)

text \<open>
  Claim C5, as amended. The test is on the strings that \<^verbatim>\<open>path.resolve\<close> returns for
  the two roots, and \<^verbatim>\<open>path.resolve\<close> does not follow symbolic links. When the strings
  are equal, as they are when the home directory is the working directory, the local
  scan is skipped: the result is the global scan alone and every item's source is
  global. When they differ, the result is the global scan followed by the local scan.
  Domains always scan both roots, so that with the home directory as working directory
  every domain found is returned twice, once as global and once as local.
\<close>

theorem skill_local_scan_skipped_on_equal_resolve:
  "(path_resolve (cwd e) (LOCAL_SKILLS_DIR e) = path_resolve (cwd e) (GLOBAL_SKILLS_DIR e) \<longrightarrow>
      SkillPrimitive_discoverItems m e f =
        (case discoverSkillPaths f (GLOBAL_SKILLS_DIR e) of
           Inl err \<Rightarrow> Inl err
         | Inr gpaths \<Rightarrow> Inr (push_parsed (parseSkill m f) Global gpaths)) \<and>
      (SkillPrimitive_discoverItems m e f = Inr items \<and> i \<in> set items \<longrightarrow> source i = Global)) \<and>
   (homedir e = cwd e \<longrightarrow>
      path_resolve (cwd e) (LOCAL_SKILLS_DIR e) = path_resolve (cwd e) (GLOBAL_SKILLS_DIR e)) \<and>
   (path_resolve (cwd e) (LOCAL_SKILLS_DIR e) \<noteq> path_resolve (cwd e) (GLOBAL_SKILLS_DIR e) \<longrightarrow>
      SkillPrimitive_discoverItems m e f =
        (case discoverSkillPaths f (GLOBAL_SKILLS_DIR e) of
           Inl err \<Rightarrow> Inl err
         | Inr gpaths \<Rightarrow>
             (case discoverSkillPaths f (LOCAL_SKILLS_DIR e) of
                Inl err \<Rightarrow> Inl err
              | Inr lpaths \<Rightarrow> Inr (push_parsed (parseSkill m f) Global gpaths @
                                     push_parsed (parseSkill m f) Local lpaths)))) \<and>
   DomainPrimitive_discoverItems m e f =
     (case discoverDomainPaths f (GLOBAL_DOMAINS_DIR e) of
        Inl err \<Rightarrow> Inl err
      | Inr gpaths \<Rightarrow>
          (case discoverDomainPaths f (LOCAL_DOMAINS_DIR e) of
             Inl err \<Rightarrow> Inl err
           | Inr lpaths \<Rightarrow> Inr (push_parsed (parseDomain m f) Global gpaths @
                                  push_parsed (parseDomain m f) Local lpaths))) \<and>
   (homedir e = cwd e \<longrightarrow>
      DomainPrimitive_discoverItems m e f =
        (case discoverDomainPaths f (GLOBAL_DOMAINS_DIR e) of
           Inl err \<Rightarrow> Inl err
         | Inr gpaths \<Rightarrow> Inr (push_parsed (parseDomain m f) Global gpaths @
                                push_parsed (parseDomain m f) Local gpaths)))"
proof -
  have d: "DomainPrimitive_discoverItems m e f =
     (case discoverDomainPaths f (GLOBAL_DOMAINS_DIR e) of
        Inl err \<Rightarrow> Inl err
      | Inr gpaths \<Rightarrow>
          (case discoverDomainPaths f (LOCAL_DOMAINS_DIR e) of
             Inl err \<Rightarrow> Inl err
           | Inr lpaths \<Rightarrow> Inr (push_parsed (parseDomain m f) Global gpaths @
                                  push_parsed (parseDomain m f) Local lpaths)))"
    unfolding DomainPrimitive_discoverItems_def
    by (cases "discoverDomainPaths f (GLOBAL_DOMAINS_DIR e)") (simp_all add: Let_def)
  have h: "homedir e = cwd e \<longrightarrow>
      path_resolve (cwd e) (LOCAL_SKILLS_DIR e) = path_resolve (cwd e) (GLOBAL_SKILLS_DIR e)"
    using same_home_same_roots(1) [of e] by simp
  from d h skill_items_equal_roots [of e m f] skill_items_different_roots [of e m f]
    skill_items_all_global [of e m f items i] domain_items_same_home [of e m f]
  show ?thesis by blast
qed

lemma fs_flat_same_home_skills:
  "SkillPrimitive_discoverItems ex_matter ex_env_home fs_flat =
     Inr [\<lparr>type = ''skill'', name = ''skills'', description = ''No description provided'',
           path = ''/home/u/.claude/skills/SKILL.md'', source = Global\<rparr>]"
  by code_simp

lemma fs_flat_same_home_domains:
  "DomainPrimitive_discoverItems ex_matter ex_env_home fs_flat =
     Inr [\<lparr>type = ''domain'', name = ''domains'', description = ''No description provided'',
           path = ''/home/u/.claude/domains/DOMAIN.md'', source = Global\<rparr>,
          \<lparr>type = ''domain'', name = ''domains'', description = ''No description provided'',
           path = ''/home/u/.claude/domains/DOMAIN.md'', source = Local\<rparr>]"
  by code_simp

text \<open>
  Home and working directory both \<^verbatim>\<open>/home/u\<close>: one skill, and the one domain twice.
\<close>

theorem skill_local_scan_skipped_on_equal_resolve_witness:
  "homedir ex_env_home = cwd ex_env_home \<and>
   path_resolve (cwd ex_env_home) (LOCAL_SKILLS_DIR ex_env_home) =
     path_resolve (cwd ex_env_home) (GLOBAL_SKILLS_DIR ex_env_home) \<and>
   SkillPrimitive_discoverItems ex_matter ex_env_home fs_flat =
     Inr [\<lparr>type = ''skill'', name = ''skills'', description = ''No description provided'',
           path = ''/home/u/.claude/skills/SKILL.md'', source = Global\<rparr>] \<and>
   DomainPrimitive_discoverItems ex_matter ex_env_home fs_flat =
     Inr [\<lparr>type = ''domain'', name = ''domains'', description = ''No description provided'',
           path = ''/home/u/.claude/domains/DOMAIN.md'', source = Global\<rparr>,
          \<lparr>type = ''domain'', name = ''domains'', description = ''No description provided'',
           path = ''/home/u/.claude/domains/DOMAIN.md'', source = Local\<rparr>]"
proof -
  have a: "homedir ex_env_home = cwd ex_env_home" by (simp add: ex_env_home_def)
  note t = skill_local_scan_skipped_on_equal_resolve [of ex_env_home ex_matter fs_flat]
  from t a have "path_resolve (cwd ex_env_home) (LOCAL_SKILLS_DIR ex_env_home) =
     path_resolve (cwd ex_env_home) (GLOBAL_SKILLS_DIR ex_env_home)"
    by blast
  with a fs_flat_same_home_skills fs_flat_same_home_domains show ?thesis by blast
qed

text \<open>
  Claim C5 as stated fails: \<^verbatim>\<open>/proj/.claude/skills\<close> is a symbolic link to
  \<^verbatim>\<open>/home/u/.claude/skills\<close>, so both roots are the same directory on disk, and the
  local scan is not skipped: the skill \<open>foo\<close> is returned twice.
\<close>

theorem skill_roots_same_directory_counterexample:
  "realpathSync fs_shared (GLOBAL_SKILLS_DIR ex_env) = Inr ''/home/u/.claude/skills'' \<and>
   realpathSync fs_shared (LOCAL_SKILLS_DIR ex_env) = Inr ''/home/u/.claude/skills'' \<and>
   discoverSkillPaths fs_shared (GLOBAL_SKILLS_DIR ex_env) =
     Inr [''/home/u/.claude/skills/foo/SKILL.md''] \<and>
   SkillPrimitive_discoverItems ex_matter ex_env fs_shared =
     Inr [\<lparr>type = ''skill'', name = ''foo'', description = ''bar'',
           path = ''/home/u/.claude/skills/foo/SKILL.md'', source = Global\<rparr>,
          \<lparr>type = ''skill'', name = ''foo'', description = ''bar'',
           path = ''/proj/.claude/skills/foo/SKILL.md'', source = Local\<rparr>]"
  by code_simp

section \<open>formatForPrompt\<close>

lemma skill_header_line:
  "sublist ''\<newline>AGENT PRIMER: ACTIVE SKILLS FOR THIS SESSION\<newline>'' skill_header"
  unfolding skill_header_def by (rule sublist_appendI)

lemma skill_footer_line: "sublist ''\<newline>END AGENT PRIMER\<newline>'' skill_footer"
proof -
  have e: "skill_footer = (''\<newline>\<newline>'' @ divider) @ ''\<newline>END AGENT PRIMER\<newline>'' @ divider"
    unfolding skill_footer_def by simp
  show ?thesis by (subst e) (rule sublist_appendI)
qed

lemma skill_section_no_references:
  assumes "map_of (metadata s) ''references'' = Some (JArr [])"
  shows "skill_section s =
     Inr (''\<newline>## '' @ name (item s) @ ''\<newline>> Source: '' @ dirname (path (item s)) @
          ''\<newline>\<newline>'' @ mainContent s)"
  using assms unfolding skill_section_def MetadataSchema_parse_def by (simp add: Let_def)

text \<open>
  Claim C7. \<^verbatim>\<open>formatForPrompt\<close> is a function of the sequence of contents alone; the
  only other thing it can do is raise, when a metadata record has no list of strings
  under \<^verbatim>\<open>references\<close>. For one content whose item is named \<open>foo\<close> and whose
  references are empty it returns the header, the section and the footer; the header
  contains the line \<^verbatim>\<open>AGENT PRIMER: ACTIVE SKILLS FOR THIS SESSION\<close>, the footer
  contains the line \<^verbatim>\<open>END AGENT PRIMER\<close>, and the output contains the line
  \<^verbatim>\<open>## foo\<close>.
\<close>

theorem formatForPrompt_single_skill:
  assumes "name (item s) = ''foo''"
    and "map_of (metadata s) ''references'' = Some (JArr [])"
  shows "SkillPrimitive_formatForPrompt [s] =
       Inr (skill_header @
            (''\<newline>## foo\<newline>> Source: '' @ dirname (path (item s)) @ ''\<newline>\<newline>'' @ mainContent s) @
            skill_footer) \<and>
     sublist ''\<newline>AGENT PRIMER: ACTIVE SKILLS FOR THIS SESSION\<newline>'' skill_header \<and>
     sublist ''\<newline>END AGENT PRIMER\<newline>'' skill_footer \<and>
     (\<exists>out. SkillPrimitive_formatForPrompt [s] = Inr out \<and>
        prefix skill_header out \<and> suffix skill_footer out \<and>
        sublist ''\<newline>AGENT PRIMER: ACTIVE SKILLS FOR THIS SESSION\<newline>'' out \<and>
        sublist ''\<newline>## foo\<newline>'' out \<and>
        sublist ''\<newline>END AGENT PRIMER\<newline>'' out)"
proof -
  let ?rest = "''> Source: '' @ dirname (path (item s)) @ ''\<newline>\<newline>'' @ mainContent s"
  let ?out = "skill_header @ (''\<newline>## foo\<newline>'' @ ?rest) @ skill_footer"
  have eq: "SkillPrimitive_formatForPrompt [s] = Inr ?out"
    unfolding SkillPrimitive_formatForPrompt_def
    by (simp add: skill_section_no_references [OF assms(2)] assms(1))
  have h: "sublist ''\<newline>AGENT PRIMER: ACTIVE SKILLS FOR THIS SESSION\<newline>'' ?out"
    using skill_header_line by (rule sublist_order.order_trans) (rule sublist_append_rightI)
  have f: "sublist ''\<newline>END AGENT PRIMER\<newline>'' ?out"
  proof -
    have e: "?out = (skill_header @ ''\<newline>## foo\<newline>'' @ ?rest) @ skill_footer"
      by (simp only: append_assoc)
    have "sublist skill_footer ?out" by (subst e) (rule sublist_append_leftI)
    with skill_footer_line show ?thesis by (rule sublist_order.order_trans)
  qed
  have m: "sublist ''\<newline>## foo\<newline>'' ?out"
  proof -
    have e: "?out = skill_header @ ''\<newline>## foo\<newline>'' @ (?rest @ skill_footer)"
      by (simp only: append_assoc)
    show ?thesis by (subst e) (rule sublist_appendI)
  qed
  have p: "prefix skill_header ?out" by (rule prefixI) (rule refl)
  have s: "suffix skill_footer ?out"
    by (rule suffixI [of _ "skill_header @ ''\<newline>## foo\<newline>'' @ ?rest"]) (simp only: append_assoc)
  from eq have eq': "SkillPrimitive_formatForPrompt [s] =
       Inr (skill_header @
            (''\<newline>## foo\<newline>> Source: '' @ dirname (path (item s)) @ ''\<newline>\<newline>'' @ mainContent s) @
            skill_footer)"
    by simp
  from eq h f m p s have "\<exists>out. SkillPrimitive_formatForPrompt [s] = Inr out \<and>
        prefix skill_header out \<and> suffix skill_footer out \<and>
        sublist ''\<newline>AGENT PRIMER: ACTIVE SKILLS FOR THIS SESSION\<newline>'' out \<and>
        sublist ''\<newline>## foo\<newline>'' out \<and>
        sublist ''\<newline>END AGENT PRIMER\<newline>'' out"
    by blast
  with eq' skill_header_line skill_footer_line show ?thesis by blast
qed

text \<open>
  The output for the skill \<open>foo\<close> in \<^verbatim>\<open>/home/u/.claude/skills/foo\<close>.
\<close>

theorem formatForPrompt_single_skill_witness:
  "name (item ex_content) = ''foo'' \<and>
   map_of (metadata ex_content) ''references'' = Some (JArr []) \<and>
   SkillPrimitive_formatForPrompt [ex_content] =
     Inr (skill_header @ ''\<newline>## foo\<newline>> Source: /home/u/.claude/skills/foo\<newline>\<newline># Foo'' @ skill_footer)"
proof -
  have a: "name (item ex_content) = ''foo''" by (simp add: ex_content_def)
  have b: "map_of (metadata ex_content) ''references'' = Some (JArr [])" by (simp add: ex_content_def)
  have c: "dirname (path (item ex_content)) = ''/home/u/.claude/skills/foo''" by code_simp
  have d: "mainContent ex_content = ''# Foo''" by (simp add: ex_content_def)
  from formatForPrompt_single_skill [OF a b] a b show ?thesis by (simp add: c d)
qed

section \<open>clearCache\<close>

lemma loadCache_never_raises: "\<exists>cache. loadCache JSON_parse w = Inr cache"
  unfolding loadCache_def by (auto split: sum.splits option.splits)

lemma saveCache_never_raises: "\<exists>w'. saveCache JSON_stringify cache w = Inr w'"
  unfolding saveCache_def by (auto split: sum.splits)

text \<open>
  Claim C10. \<^verbatim>\<open>clearCache\<close> raises when the file exists and \<^verbatim>\<open>unlinkSync\<close> fails,
  returns \<^verbatim>\<open>true\<close> with the file gone when the file exists and the deletion succeeds,
  and returns \<^verbatim>\<open>false\<close> with nothing changed when there is no file, whereas
  \<^verbatim>\<open>loadCache\<close> and \<^verbatim>\<open>saveCache\<close> never raise. Its caller \<^verbatim>\<open>main\<close> catches the
  exception and exits with 0, the cache file as it was.
\<close>

theorem clearCache_propagates_unlink_error:
  "(cache_file w \<noteq> Missing \<and> \<not> unlink_ok w \<longrightarrow> clearCache w = Inl FsError) \<and>
   (cache_file w \<noteq> Missing \<and> unlink_ok w \<longrightarrow>
      clearCache w = Inr (True, w\<lparr>cache_file := Missing\<rparr>)) \<and>
   (cache_file w = Missing \<longrightarrow> clearCache w = Inr (False, w)) \<and>
   (\<exists>cache. loadCache JSON_parse w = Inr cache) \<and>
   (\<exists>w'. saveCache JSON_stringify cache w = Inr w') \<and>
   (clearRecent args \<and> \<not> helpFlag args \<longrightarrow>
      (\<exists>w'. main h args e f w script = (Exited 0, w') \<and>
            (cache_file w \<noteq> Missing \<and> \<not> unlink_ok w \<longrightarrow> w' = w)))"
proof -
  have "clearRecent args \<and> \<not> helpFlag args \<longrightarrow>
      (\<exists>w'. main h args e f w script = (Exited 0, w') \<and>
            (cache_file w \<noteq> Missing \<and> \<not> unlink_ok w \<longrightarrow> w' = w))"
    unfolding main_def clearCache_def existsSync_cache_def unlinkSync_cache_def by simp
  moreover have "cache_file w \<noteq> Missing \<and> \<not> unlink_ok w \<longrightarrow> clearCache w = Inl FsError"
    and "cache_file w \<noteq> Missing \<and> unlink_ok w \<longrightarrow>
      clearCache w = Inr (True, w\<lparr>cache_file := Missing\<rparr>)"
    and "cache_file w = Missing \<longrightarrow> clearCache w = Inr (False, w)"
    unfolding clearCache_def existsSync_cache_def unlinkSync_cache_def by simp_all
  ultimately show ?thesis
    using loadCache_never_raises [of JSON_parse w] saveCache_never_raises [of JSON_stringify cache w]
    by blast
qed

text \<open>
  The three cases on concrete worlds, and \<^verbatim>\<open>main --clear-recent\<close> where the deletion
  fails.
\<close>

theorem clearCache_propagates_unlink_error_witness:
  "clearCache ((ex_world (File ''{}''))\<lparr>unlink_ok := False\<rparr>) = Inl FsError \<and>
   clearCache (ex_world (File ''{}'')) = Inr (True, ex_world Missing) \<and>
   clearCache (ex_world Missing) = Inr (False, ex_world Missing) \<and>
   main ex_host (ex_args\<lparr>clearRecent := True\<rparr>) ex_env fs_flat
     ((ex_world (File ''{}''))\<lparr>unlink_ok := False\<rparr>) [] =
     (Exited 0, (ex_world (File ''{}''))\<lparr>unlink_ok := False\<rparr>)"
proof -
  have a: "clearRecent (ex_args\<lparr>clearRecent := True\<rparr>) \<and> \<not> helpFlag (ex_args\<lparr>clearRecent := True\<rparr>)"
    by (simp add: ex_args_def)
  show ?thesis
    using clearCache_propagates_unlink_error
      [of "(ex_world (File ''{}''))\<lparr>unlink_ok := False\<rparr>" ex_JSON_parse ex_JSON_stringify
          empty_cache "ex_args\<lparr>clearRecent := True\<rparr>" ex_host ex_env fs_flat "[]"]
      clearCache_propagates_unlink_error
      [of "ex_world (File ''{}'')" ex_JSON_parse ex_JSON_stringify empty_cache ex_args ex_host ex_env fs_flat "[]"]
      clearCache_propagates_unlink_error
      [of "ex_world Missing" ex_JSON_parse ex_JSON_stringify empty_cache ex_args ex_host ex_env fs_flat "[]"]
      a
    by (auto simp: ex_world_def)
qed

section \<open>The launch step\<close>

lemma launch_nil:
  "launch h args f w [] =
     (Spawned ((if dangerousMode args then [''--dangerously-skip-permissions''] else []) @ claudeArgs args), w)"
  unfolding launch_def by (simp add: Let_def)

lemma updateCache_world:
  "updateCache JSON_parse JSON_stringify t sel w = Inr w' \<Longrightarrow>
   w' = w \<or>
   (\<exists>cache. loadCache JSON_parse w = Inr cache \<and>
      w' = w\<lparr>cache_file := File (JSON_stringify (cache_json (updateCache_mem t sel cache)))\<rparr>)"
  unfolding updateCache_def saveCache_def saveCache_try_def
  by (cases "loadCache JSON_parse w") (auto split: if_splits)

lemma launch_world:
  assumes "launch h args f w sel = (out, w')" and "w' \<noteq> w"
  shows "sel \<noteq> [] \<and>
     (\<exists>cache. loadCache (h_JSON_parse h) w = Inr cache \<and>
        w' = w\<lparr>cache_file :=
                 File (h_JSON_stringify h (cache_json (updateCache_mem (h_now h) sel cache)))\<rparr>)"
proof (cases "sel = []")
  case True
  with assms show ?thesis by (simp add: launch_nil)
next
  case False
  show ?thesis
  proof (cases "updateCache (h_JSON_parse h) (h_JSON_stringify h) (h_now h) sel w")
    case (Inl err)
    with assms False show ?thesis unfolding launch_def by (simp add: Let_def)
  next
    case (Inr w1)
    have "w' = w1"
      using assms(1) False Inr unfolding launch_def
      by (cases "build_sections h f (groupBy type sel)") (auto simp: Let_def)
    with updateCache_world [OF Inr] assms(2) False show ?thesis by blast
  qed
qed

lemma selection_loop_confirmed:
  "selection_loop sortedByType script = Answered sel \<Longrightarrow>
   \<exists>r \<in> set script. confirm r = Some ConfirmYes \<and> run_pickers sortedByType (picks r) [] = Answered sel"
proof (induction script)
  case Nil
  then show ?case by simp
next
  case (Cons r rs)
  show ?case
  proof (cases "run_pickers sortedByType (picks r) []")
    case (Answered picked)
    show ?thesis
    proof (cases "confirm r")
      case None
      with Cons.prems Answered show ?thesis by simp
    next
      case (Some c)
      with Cons Answered show ?thesis by (cases c) auto
    qed
  next
    case Cancelled
    with Cons.prems show ?thesis by simp
  next
    case Waiting
    with Cons.prems show ?thesis by simp
  qed
qed

lemma main_world:
  assumes "main h args e f w script = (out, w')" and "w' \<noteq> w" and "\<not> clearRecent args"
  shows "\<exists>allItems cache sel.
     discoverAll h e f = Inr allItems \<and> loadCache (h_JSON_parse h) w = Inr cache \<and>
     selection_loop (groupBy type (sortByRecent (h_localeCompare h) allItems cache)) script = Answered sel \<and>
     launch h args f w sel = (out, w')"
proof (cases "discoverAll h e f")
  case (Inl err)
  with assms show ?thesis unfolding main_def by (auto split: if_splits)
next
  case (Inr allItems)
  show ?thesis
  proof (cases "loadCache (h_JSON_parse h) w")
    case (Inl err)
    with assms Inr show ?thesis unfolding main_def by (auto split: if_splits)
  next
    case c: (Inr cache)
    show ?thesis
    proof (cases "selection_loop (groupBy type (sortByRecent (h_localeCompare h) allItems cache)) script")
      case (Answered sel)
      with assms Inr c have "launch h args f w sel = (out, w')"
        unfolding main_def by (auto simp: Let_def split: if_splits)
      with Inr c Answered show ?thesis by blast
    next
      case Cancelled
      with assms Inr c show ?thesis unfolding main_def by (auto simp: Let_def split: if_splits)
    next
      case Waiting
      with assms Inr c show ?thesis unfolding main_def by (auto simp: Let_def split: if_splits)
    qed
  qed
qed

lemma main_nothing_selected:
  assumes "\<not> helpFlag args" and "\<not> clearRecent args" and "\<not> listFlag args"
    and "discoverAll h e f = Inr allItems" and "allItems \<noteq> []"
    and "loadCache (h_JSON_parse h) w = Inr cache"
    and "selection_loop (groupBy type (sortByRecent (h_localeCompare h) allItems cache)) script = Answered []"
  shows "main h args e f w script =
     (Spawned ((if dangerousMode args then [''--dangerously-skip-permissions''] else []) @ claudeArgs args), w)"
  using assms unfolding main_def by (simp add: Let_def launch_nil)

text \<open>
  Claim C8. With nothing selected, the launch step leaves the world as it was and
  spawns \<^verbatim>\<open>claude\<close> with the permission flag (in dangerous mode) and the passthrough
  arguments only; so does \<^verbatim>\<open>main\<close> when it gets there. And when a run of \<^verbatim>\<open>main\<close>
  without \<^verbatim>\<open>--clear-recent\<close> ends in a world that differs from the one it started in,
  the selection loop ended with a confirmed, non-empty selection, and the difference is
  the cache file, which holds the updated cache.
\<close>

theorem launch_updates_cache_only_for_confirmed_selection:
  "launch h args f w [] =
     (Spawned ((if dangerousMode args then [''--dangerously-skip-permissions''] else []) @ claudeArgs args), w) \<and>
   (\<not> helpFlag args \<and> \<not> clearRecent args \<and> \<not> listFlag args \<and>
    discoverAll h e f = Inr allItems \<and> allItems \<noteq> [] \<and>
    loadCache (h_JSON_parse h) w = Inr cache \<and>
    selection_loop (groupBy type (sortByRecent (h_localeCompare h) allItems cache)) script = Answered []
    \<longrightarrow> main h args e f w script =
          (Spawned ((if dangerousMode args then [''--dangerously-skip-permissions''] else []) @
                    claudeArgs args), w)) \<and>
   (main h args e f w script = (out, w') \<and> w' \<noteq> w \<and> \<not> clearRecent args
    \<longrightarrow> (\<exists>allItems cache sel.
           discoverAll h e f = Inr allItems \<and> loadCache (h_JSON_parse h) w = Inr cache \<and>
           selection_loop (groupBy type (sortByRecent (h_localeCompare h) allItems cache)) script =
             Answered sel \<and>
           sel \<noteq> [] \<and>
           (\<exists>r \<in> set script. confirm r = Some ConfirmYes) \<and>
           w' = w\<lparr>cache_file :=
                    File (h_JSON_stringify h (cache_json (updateCache_mem (h_now h) sel cache)))\<rparr>))"
proof -
  have "\<exists>allItems cache sel.
           discoverAll h e f = Inr allItems \<and> loadCache (h_JSON_parse h) w = Inr cache \<and>
           selection_loop (groupBy type (sortByRecent (h_localeCompare h) allItems cache)) script =
             Answered sel \<and>
           sel \<noteq> [] \<and>
           (\<exists>r \<in> set script. confirm r = Some ConfirmYes) \<and>
           w' = w\<lparr>cache_file :=
                    File (h_JSON_stringify h (cache_json (updateCache_mem (h_now h) sel cache)))\<rparr>"
    if m: "main h args e f w script = (out, w')" and ne: "w' \<noteq> w" and nc: "\<not> clearRecent args"
  proof -
    from main_world [OF m ne nc] obtain allItems cache sel where
      d: "discoverAll h e f = Inr allItems" and c: "loadCache (h_JSON_parse h) w = Inr cache"
      and s: "selection_loop (groupBy type (sortByRecent (h_localeCompare h) allItems cache)) script =
                Answered sel"
      and l: "launch h args f w sel = (out, w')"
      by blast
    from launch_world [OF l ne] c have "sel \<noteq> []"
      and "w' = w\<lparr>cache_file :=
                    File (h_JSON_stringify h (cache_json (updateCache_mem (h_now h) sel cache)))\<rparr>"
      by auto
    moreover from selection_loop_confirmed [OF s]
    have "\<exists>r \<in> set script. confirm r = Some ConfirmYes" by blast
    ultimately show ?thesis using d c s by blast
  qed
  with launch_nil [of h args f w] main_nothing_selected [of args h e f allItems w cache script]
  show ?thesis by blast
qed

lemma ex_discoverAll:
  "discoverAll ex_host ex_env fs_shared =
     Inr [ex_foo, ex_foo\<lparr>path := ''/proj/.claude/skills/foo/SKILL.md'', source := Local\<rparr>]"
  by code_simp

lemma ex_loadCache: "loadCache (h_JSON_parse ex_host) (ex_world Missing) = Inr empty_cache"
  by code_simp

lemma ex_selection_none:
  "selection_loop
     (groupBy type (sortByRecent (h_localeCompare ex_host)
        [ex_foo, ex_foo\<lparr>path := ''/proj/.claude/skills/foo/SKILL.md'', source := Local\<rparr>] empty_cache))
     ex_script_none = Answered []"
  by code_simp

lemma ex_main_foo:
  \<open>main ex_host ex_args ex_env fs_shared (ex_world Missing) ex_script_foo =
   (Spawned [''--dangerously-skip-permissions'', ''--append-system-prompt'',
       skill_header @ ''\<newline>## foo\<newline>> Source: /home/u/.claude/skills/foo\<newline>\<newline># Foo'' @ skill_footer,
       ''--model'', ''opus''],
    ex_world (File ''{"recent": {"skill:global:foo": 5000}}''))\<close>
  by code_simp

text \<open>
  Two runs on the same disk: nothing picked and confirmed, and, after one restart, the
  skill \<open>foo\<close> picked and confirmed.
\<close>

theorem launch_updates_cache_only_for_confirmed_selection_witness:
  \<open>main ex_host ex_args ex_env fs_shared (ex_world Missing) ex_script_none =
     (Spawned [''--dangerously-skip-permissions'', ''--model'', ''opus''], ex_world Missing) \<and>
   main ex_host ex_args ex_env fs_shared (ex_world Missing) ex_script_foo =
     (Spawned [''--dangerously-skip-permissions'', ''--append-system-prompt'',
        skill_header @ ''\<newline>## foo\<newline>> Source: /home/u/.claude/skills/foo\<newline>\<newline># Foo'' @ skill_footer,
        ''--model'', ''opus''],
      ex_world (File ''{"recent": {"skill:global:foo": 5000}}'')) \<and>
   ex_world (File ''{"recent": {"skill:global:foo": 5000}}'') \<noteq> ex_world Missing \<and>
   \<not> clearRecent ex_args \<and>
   (\<exists>sel. sel \<noteq> [] \<and>
      ex_world (File ''{"recent": {"skill:global:foo": 5000}}'') =
        (ex_world Missing)\<lparr>cache_file :=
           File (h_JSON_stringify ex_host (cache_json (updateCache_mem (h_now ex_host) sel empty_cache)))\<rparr>)\<close>
proof -
  let ?items = "[ex_foo, ex_foo\<lparr>path := ''/proj/.claude/skills/foo/SKILL.md'', source := Local\<rparr>]"
  let ?w' = \<open>ex_world (File ''{"recent": {"skill:global:foo": 5000}}'')\<close>
  have flags: "\<not> helpFlag ex_args \<and> \<not> clearRecent ex_args \<and> \<not> listFlag ex_args \<and> dangerousMode ex_args \<and>
      claudeArgs ex_args = [''--model'', ''opus'']"
    by (simp add: ex_args_def)
  have ne: "?items \<noteq> []" by simp
  have diff: "?w' \<noteq> ex_world Missing" by (simp add: ex_world_def)
  note t1 = launch_updates_cache_only_for_confirmed_selection
      [of ex_host ex_args fs_shared "ex_world Missing" ex_env ?items empty_cache ex_script_none,
       THEN conjunct2, THEN conjunct1]
  from t1 flags ex_discoverAll ne ex_loadCache ex_selection_none
  have 1: "main ex_host ex_args ex_env fs_shared (ex_world Missing) ex_script_none =
     (Spawned [''--dangerously-skip-permissions'', ''--model'', ''opus''], ex_world Missing)"
    by simp
  note t2 = launch_updates_cache_only_for_confirmed_selection
      [of ex_host ex_args fs_shared "ex_world Missing" ex_env ?items empty_cache ex_script_foo _ ?w',
       THEN conjunct2, THEN conjunct2]
  from t2 ex_main_foo diff flags
  have "\<exists>allItems cache sel.
           discoverAll ex_host ex_env fs_shared = Inr allItems \<and>
           loadCache (h_JSON_parse ex_host) (ex_world Missing) = Inr cache \<and>
           selection_loop (groupBy type (sortByRecent (h_localeCompare ex_host) allItems cache))
             ex_script_foo = Answered sel \<and>
           sel \<noteq> [] \<and>
           (\<exists>r \<in> set ex_script_foo. confirm r = Some ConfirmYes) \<and>
           ?w' = (ex_world Missing)\<lparr>cache_file :=
                    File (h_JSON_stringify ex_host (cache_json (updateCache_mem (h_now ex_host) sel cache)))\<rparr>"
    by blast
  then have 2: "\<exists>sel. sel \<noteq> [] \<and>
      ?w' = (ex_world Missing)\<lparr>cache_file :=
           File (h_JSON_stringify ex_host (cache_json (updateCache_mem (h_now ex_host) sel empty_cache)))\<rparr>"
    using ex_loadCache by auto
  from 1 2 ex_main_foo diff flags show ?thesis by blast
qed

end
